theory Spec2Isabelle
  imports Main "HOL-Library.Monad_Syntax"
begin

section \<open>Python text primitives\<close>

text \<open>
  A Python \<open>str\<close> is modelled as a \<open>string\<close> whose characters are the code points
  0 to 255. The case, whitespace and digit tables below are Python's tables on that range.
  The two pictographs of the download log lie outside it and are written as their UTF-8 bytes.
\<close>

definition py_lower_char :: "char \<Rightarrow> char" where
  "py_lower_char c =
     (let n = (of_char c :: nat)
      in if (65 \<le> n \<and> n \<le> 90) \<or> (192 \<le> n \<and> n \<le> 222 \<and> n \<noteq> 215)
         then char_of (n + 32) else c)"

definition py_lower :: "string \<Rightarrow> string" where
  "py_lower s = map py_lower_char s"

definition py_isspace :: "char \<Rightarrow> bool" where
  "py_isspace c = ((of_char c :: nat) \<in> {9, 10, 11, 12, 13, 28, 29, 30, 31, 32, 133, 160})"

definition py_strip :: "string \<Rightarrow> string" where
  "py_strip s = rev (dropWhile py_isspace (rev (dropWhile py_isspace s)))"

fun py_startswith :: "string \<Rightarrow> string \<Rightarrow> bool" where
  "py_startswith s [] = True"
| "py_startswith [] (p # ps) = False"
| "py_startswith (c # cs) (p # ps) = (c = p \<and> py_startswith cs ps)"

text \<open>\<open>py_in needle hay\<close> is Python's \<open>needle in hay\<close> on two strings.\<close>

fun py_in :: "string \<Rightarrow> string \<Rightarrow> bool" where
  "py_in needle [] = (needle = [])"
| "py_in needle (c # cs) = (py_startswith (c # cs) needle \<or> py_in needle cs)"

definition digit_char :: "nat \<Rightarrow> char" where
  "digit_char d = char_of (48 + d)"

fun str_nat :: "nat \<Rightarrow> string" where
  "str_nat n = (if n < 10 then [digit_char n] else str_nat (n div 10) @ [digit_char (n mod 10)])"

declare str_nat.simps [simp del]

definition str_int :: "int \<Rightarrow> string" where
  "str_int i = (if i < 0 then CHR ''-'' # str_nat (nat (- i)) else str_nat (nat i))"

definition is_ascii_digit :: "char \<Rightarrow> bool" where
  "is_ascii_digit c = (48 \<le> (of_char c :: nat) \<and> (of_char c :: nat) \<le> 57)"

text \<open>\<open>str.isdigit\<close> also accepts the superscript digits, which \<open>int\<close> then rejects.\<close>

definition py_isdigit :: "string \<Rightarrow> bool" where
  "py_isdigit s =
     (s \<noteq> [] \<and> (\<forall>c \<in> set s. is_ascii_digit c \<or> (of_char c :: nat) \<in> {178, 179, 185}))"

definition digits_value :: "string \<Rightarrow> nat" where
  "digits_value s = foldl (\<lambda>v c. 10 * v + ((of_char c :: nat) - 48)) 0 s"

text \<open>\<open>int(text)\<close> on a stripped text: \<open>None\<close> is the \<open>ValueError\<close>.\<close>

definition py_int :: "string \<Rightarrow> nat option" where
  "py_int s = (if s \<noteq> [] \<and> (\<forall>c \<in> set s. is_ascii_digit c) then Some (digits_value s) else None)"

section \<open>The two HTTP sessions\<close>

datatype json =
    JNull
  | JBool bool
  | JInt int
  | JFloat string
  | JStr string
  | JList "json list"
  | JDict "(string \<times> json) list"

text \<open>
  A response offers three views of its body: \<open>json_body\<close> is \<open>response.json()\<close>
  (\<open>None\<close> when it raises), \<open>anchors\<close> is what \<open>soup.find_all('a', href=True)\<close> yields
  as pairs of the \<open>href\<close> and of \<open>get_text()\<close>, \<open>content\<close> is the raw body.
\<close>

record response =
  status_code :: int
  json_body :: "json option"
  anchors :: "(string \<times> string) list"
  content :: string

datatype request =
    Api_get string
  | Api_search string string
  | Web_get string

text \<open>
  The network answers a request knowing the requests issued before it; \<open>None\<close> is a raised
  exception (timeout, connection error).
\<close>

type_synonym network = "request list \<Rightarrow> request \<Rightarrow> response option"

definition api_base :: string where
  "api_base = ''https://api.companieshouse.gov.uk''"

definition web_base :: string where
  "web_base = ''https://find-and-update.company-information.service.gov.uk''"

definition send :: "network \<Rightarrow> request \<Rightarrow> request list \<Rightarrow> response option \<times> request list" where
  "send net r log = (net log r, log @ [r])"

definition test_api_connection :: "network \<Rightarrow> string \<Rightarrow> request list \<Rightarrow> bool \<times> request list" where
  "test_api_connection net company_id log =
     (case send net (Api_get (api_base @ ''/company/'' @ company_id)) log of
        (None, log') \<Rightarrow> (False, log')
      | (Some resp, log') \<Rightarrow> (status_code resp \<in> {200, 404}, log'))"

section \<open>Document Locator\<close>

record pdf_info =
  url :: string
  description :: string
  page :: nat

definition max_pages :: nat where
  "max_pages = 20"

definition listing_url :: "string \<Rightarrow> nat \<Rightarrow> string" where
  "listing_url company_id page_num =
     (if page_num = 1 then web_base @ ''/company/'' @ company_id @ ''/filing-history''
      else web_base @ ''/company/'' @ company_id @ ''/filing-history?page='' @ str_nat page_num)"

fun page_pdf_links :: "nat \<Rightarrow> (string \<times> string) list \<Rightarrow> pdf_info list" where
  "page_pdf_links page_num [] = []"
| "page_pdf_links page_num ((href, t) # rest) =
     (let text = py_strip t
      in if py_in ''pdf'' (py_lower href) \<or> py_in ''view pdf'' (py_lower text)
            \<or> py_in ''document'' (py_lower href)
         then if py_startswith href ''/''
              then \<lparr>url = ''https://find-and-update.company-information.service.gov.uk'' @ href,
                    description = text, page = page_num\<rparr> # page_pdf_links page_num rest
              else if \<not> py_startswith href ''http''
              then page_pdf_links page_num rest
              else \<lparr>url = href, description = text, page = page_num\<rparr>
                     # page_pdf_links page_num rest
         else page_pdf_links page_num rest)"

text \<open>The first pagination loop; \<open>None\<close> is the \<open>ValueError\<close> of \<open>int(text)\<close>.\<close>

fun pagination_scan :: "nat \<Rightarrow> (string \<times> string) list \<Rightarrow> bool option" where
  "pagination_scan page_num [] = Some False"
| "pagination_scan page_num ((href, t) # rest) =
     (let text = py_lower (py_strip t)
      in if py_in ''next'' text \<or> py_in (''page='' @ str_nat (page_num + 1)) href
         then Some True
         else if py_isdigit text
         then (case py_int text of
                 None \<Rightarrow> None
               | Some v \<Rightarrow> if v > page_num then Some True else pagination_scan page_num rest)
         else pagination_scan page_num rest)"

text \<open>The second loop, run when the first found nothing.\<close>

fun href_scan :: "nat \<Rightarrow> (string \<times> string) list \<Rightarrow> bool" where
  "href_scan page_num [] = False"
| "href_scan page_num ((href, t) # rest) =
     (if py_in (''page='' @ str_nat (page_num + 1)) href then True else href_scan page_num rest)"

definition has_next_page :: "nat \<Rightarrow> (string \<times> string) list \<Rightarrow> bool option" where
  "has_next_page page_num links =
     (case pagination_scan page_num links of
        None \<Rightarrow> None
      | Some True \<Rightarrow> Some True
      | Some False \<Rightarrow> Some (href_scan page_num links))"

text \<open>
  The \<open>while\<close> loop of \<open>get_pdf_links_scraping\<close>, with the \<open>try\<close> around it: an exception
  of the request or of the pagination check returns what has been accumulated.
\<close>

function scrape_loop ::
  "network \<Rightarrow> string \<Rightarrow> nat \<Rightarrow> pdf_info list \<Rightarrow> request list \<Rightarrow> pdf_info list \<times> request list"
where
  "scrape_loop net company_id page_num all_pdf_links log =
     (if page_num \<le> max_pages
      then (let req = Web_get (listing_url company_id page_num); log' = log @ [req]
            in case net log req of
                 None \<Rightarrow> (all_pdf_links, log')
               | Some resp \<Rightarrow>
                   if status_code resp \<noteq> 200 then (all_pdf_links, log')
                   else let links = page_pdf_links page_num (anchors resp)
                        in if links = [] then (all_pdf_links, log')
                           else (case has_next_page page_num (anchors resp) of
                                   None \<Rightarrow> (all_pdf_links @ links, log')
                                 | Some False \<Rightarrow> (all_pdf_links @ links, log')
                                 | Some True \<Rightarrow>
                                     scrape_loop net company_id (page_num + 1)
                                       (all_pdf_links @ links) log'))
      else (all_pdf_links, log))"
  by pat_completeness auto
termination
  by (relation "measure (\<lambda>(net, company_id, page_num, all_pdf_links, log). Suc max_pages - page_num)")
     auto

declare scrape_loop.simps [simp del]

definition get_pdf_links_scraping ::
  "network \<Rightarrow> string \<Rightarrow> request list \<Rightarrow> pdf_info list \<times> request list" where
  "get_pdf_links_scraping net company_id log = scrape_loop net company_id 1 [] log"

text \<open>The requests for the listing pages \<open>p\<close> to \<open>q - 1\<close>, in order.\<close>

abbreviation listing_requests :: "string \<Rightarrow> nat \<Rightarrow> nat \<Rightarrow> request list" where
  "listing_requests cid p q \<equiv> map (\<lambda>i. Web_get (listing_url cid i)) [p..<q]"

section \<open>Registry records as Python values\<close>

text \<open>
  Every handler of the program is \<open>except Exception\<close>, so an operation that raises is
  modelled as \<open>None\<close> without telling the exceptions apart. A \<open>float\<close> is carried as its
  \<open>repr\<close>, since the program only prints and tests it; the keys of a \<open>JDict\<close> are distinct.
\<close>

fun truthy :: "json \<Rightarrow> bool" where
  "truthy JNull = False"
| "truthy (JBool b) = b"
| "truthy (JInt i) = (i \<noteq> 0)"
| "truthy (JFloat r) = (r \<noteq> ''0.0'' \<and> r \<noteq> ''-0.0'')"
| "truthy (JStr s) = (s \<noteq> [])"
| "truthy (JList xs) = (xs \<noteq> [])"
| "truthy (JDict kvs) = (kvs \<noteq> [])"

text \<open>\<open>x.get(k, d)\<close>: only a dict has the method.\<close>

fun py_get :: "json \<Rightarrow> string \<Rightarrow> json \<Rightarrow> json option" where
  "py_get (JDict kvs) k d = Some (case map_of kvs k of None \<Rightarrow> d | Some v \<Rightarrow> v)"
| "py_get _ k d = None"

text \<open>\<open>k in x\<close> for a string \<open>k\<close>.\<close>

fun py_has :: "string \<Rightarrow> json \<Rightarrow> bool option" where
  "py_has k (JDict kvs) = Some (map_of kvs k \<noteq> None)"
| "py_has k (JList xs) = Some (JStr k \<in> set xs)"
| "py_has k (JStr s) = Some (py_in k s)"
| "py_has k _ = None"

text \<open>\<open>x[k]\<close> for a string \<open>k\<close>.\<close>

fun py_item :: "json \<Rightarrow> string \<Rightarrow> json option" where
  "py_item (JDict kvs) k = map_of kvs k"
| "py_item _ k = None"

text \<open>\<open>for v in x\<close>.\<close>

fun py_iter :: "json \<Rightarrow> json list option" where
  "py_iter (JList xs) = Some xs"
| "py_iter (JStr s) = Some (map (\<lambda>c. JStr [c]) s)"
| "py_iter (JDict kvs) = Some (map (\<lambda>kv. JStr (fst kv)) kvs)"
| "py_iter _ = None"

text \<open>\<open>x[:n]\<close>.\<close>

fun py_slice :: "json \<Rightarrow> nat \<Rightarrow> json option" where
  "py_slice (JList xs) n = Some (JList (take n xs))"
| "py_slice (JStr s) n = Some (JStr (take n s))"
| "py_slice _ n = None"

fun join_str :: "string \<Rightarrow> string list \<Rightarrow> string" where
  "join_str sep [] = []"
| "join_str sep [x] = x"
| "join_str sep (x # y # rest) = x @ sep @ join_str sep (y # rest)"

definition hex_digit :: "nat \<Rightarrow> char" where
  "hex_digit d = (if d < 10 then char_of (48 + d) else char_of (87 + d))"

definition repr_char :: "char \<Rightarrow> char \<Rightarrow> string" where
  "repr_char quote c =
     (let n = (of_char c :: nat)
      in if c = quote \<or> c = CHR 0x5C then [CHR 0x5C, c]
         else if n = 9 then [CHR 0x5C, CHR ''t'']
         else if n = 10 then [CHR 0x5C, CHR ''n'']
         else if n = 13 then [CHR 0x5C, CHR ''r'']
         else if n < 32 \<or> n = 127 \<or> (128 \<le> n \<and> n \<le> 160) \<or> n = 173
         then [CHR 0x5C, CHR ''x'', hex_digit (n div 16), hex_digit (n mod 16)]
         else [c])"

definition repr_str :: "string \<Rightarrow> string" where
  "repr_str s =
     (let quote = (if CHR 0x27 \<in> set s \<and> CHR 0x22 \<notin> set s then CHR 0x22 else CHR 0x27)
      in quote # concat (map (repr_char quote) s) @ [quote])"

fun py_repr :: "json \<Rightarrow> string" where
  "py_repr JNull = ''None''"
| "py_repr (JBool b) = (if b then ''True'' else ''False'')"
| "py_repr (JInt i) = str_int i"
| "py_repr (JFloat r) = r"
| "py_repr (JStr s) = repr_str s"
| "py_repr (JList xs) = ''['' @ join_str '', '' (map py_repr xs) @ '']''"
| "py_repr (JDict kvs) =
     ''{'' @ join_str '', '' (map (\<lambda>kv. repr_str (fst kv) @ '': '' @ py_repr (snd kv)) kvs) @ ''}''"

text \<open>What an f-string puts in place of \<open>{x}\<close>.\<close>

definition py_str :: "json \<Rightarrow> string" where
  "py_str x = (case x of JStr s \<Rightarrow> s | _ \<Rightarrow> py_repr x)"

text \<open>\<open>', '.join(parts)\<close> raises on a part that is not a string.\<close>

definition py_join :: "string \<Rightarrow> json list \<Rightarrow> string option" where
  "py_join sep parts =
     map_option (join_str sep) (those (map (\<lambda>j. case j of JStr s \<Rightarrow> Some s | _ \<Rightarrow> None) parts))"

definition NA :: json where
  "NA = JStr ''N/A''"

definition address_fields :: "string list" where
  "address_fields =
     [''address_line_1'', ''address_line_2'', ''locality'', ''region'', ''postal_code'', ''country'']"

text \<open>The loop that collects the address parts; the three formatters repeat it verbatim.\<close>

fun address_parts :: "json \<Rightarrow> string list \<Rightarrow> json list option" where
  "address_parts addr [] = Some []"
| "address_parts addr (field # rest) =
     do {
       has \<leftarrow> py_has field addr;
       keep \<leftarrow> (if has then map_option (\<lambda>v. if truthy v then [v] else []) (py_item addr field)
                else Some []);
       more \<leftarrow> address_parts addr rest;
       Some (keep @ more)
     }"

definition address_text :: "json \<Rightarrow> string option" where
  "address_text addr = do { parts \<leftarrow> address_parts addr address_fields; py_join '', '' parts }"

section \<open>Archive Builder: the text sections\<close>

definition format_company_profile :: "json \<Rightarrow> string option" where
  "format_company_profile data =
     (if \<not> truthy data
      then Some ''=== COMPANY OVERVIEW ===\<newline>\<newline>No data available from API\<newline>''
      else do {
        company_name \<leftarrow> py_get data ''company_name'' NA;
        company_number \<leftarrow> py_get data ''company_number'' NA;
        company_status \<leftarrow> py_get data ''company_status'' NA;
        company_type \<leftarrow> py_get data ''type'' NA;
        date_of_creation \<leftarrow> py_get data ''date_of_creation'' NA;
        jurisdiction \<leftarrow> py_get data ''jurisdiction'' NA;
        has_addr \<leftarrow> py_has ''registered_office_address'' data;
        addr_part \<leftarrow>
          (if has_addr
           then do {
             addr \<leftarrow> py_item data ''registered_office_address'';
             line \<leftarrow> address_text addr;
             Some (''Registered Office Address: '' @ line @ ''\<newline>'')
           }
           else Some []);
        has_sic \<leftarrow> py_has ''sic_codes'' data;
        sic_part \<leftarrow>
          (if has_sic
           then do {
             sic_codes \<leftarrow> py_item data ''sic_codes'';
             if truthy sic_codes
             then do {
               sics \<leftarrow> py_iter sic_codes;
               Some (''\<newline>Nature of Business (SIC):\<newline>''
                     @ concat (map (\<lambda>sic. ''  '' @ py_str sic @ ''\<newline>'') sics))
             }
             else Some []
           }
           else Some []);
        has_accounts \<leftarrow> py_has ''accounts'' data;
        accounts_part \<leftarrow>
          (if has_accounts
           then do {
             accounts \<leftarrow> py_item data ''accounts'';
             next_due \<leftarrow> py_get accounts ''next_due'' NA;
             next_made_up_to \<leftarrow> py_get accounts ''next_made_up_to'' NA;
             last_accounts \<leftarrow> py_get accounts ''last_accounts'' (JDict []);
             made_up_to \<leftarrow> py_get last_accounts ''made_up_to'' NA;
             Some (''\<newline>=== ACCOUNTS INFORMATION ===\<newline>''
                   @ ''Next Accounts Due: '' @ py_str next_due @ ''\<newline>''
                   @ ''Next Made Up To: '' @ py_str next_made_up_to @ ''\<newline>''
                   @ ''Last Accounts Made Up To: '' @ py_str made_up_to @ ''\<newline>'')
           }
           else Some []);
        has_cs \<leftarrow> py_has ''confirmation_statement'' data;
        cs_part \<leftarrow>
          (if has_cs
           then do {
             cs \<leftarrow> py_item data ''confirmation_statement'';
             next_due \<leftarrow> py_get cs ''next_due'' NA;
             next_made_up_to \<leftarrow> py_get cs ''next_made_up_to'' NA;
             last_made_up_to \<leftarrow> py_get cs ''last_made_up_to'' NA;
             Some (''\<newline>=== CONFIRMATION STATEMENT ===\<newline>''
                   @ ''Next Statement Date: '' @ py_str next_due @ ''\<newline>''
                   @ ''Next Made Up To: '' @ py_str next_made_up_to @ ''\<newline>''
                   @ ''Last Made Up To: '' @ py_str last_made_up_to @ ''\<newline>'')
           }
           else Some []);
        Some (''=== COMPANY OVERVIEW ===\<newline>\<newline>''
              @ ''Company Name: '' @ py_str company_name @ ''\<newline>''
              @ ''Company Number: '' @ py_str company_number @ ''\<newline>''
              @ ''Company Status: '' @ py_str company_status @ ''\<newline>''
              @ ''Company Type: '' @ py_str company_type @ ''\<newline>''
              @ ''Incorporated On: '' @ py_str date_of_creation @ ''\<newline>''
              @ ''Jurisdiction: '' @ py_str jurisdiction @ ''\<newline>''
              @ addr_part @ sic_part @ accounts_part @ cs_part)
      })"

text \<open>An optional line \<open>label: value\<close>, written when the key is in the record.\<close>

definition optional_line :: "json \<Rightarrow> string \<Rightarrow> string \<Rightarrow> string option" where
  "optional_line rec k label =
     do {
       has \<leftarrow> py_has k rec;
       if has then map_option (\<lambda>v. label @ py_str v @ ''\<newline>'') (py_item rec k) else Some []
     }"

definition date_of_birth_line :: "json \<Rightarrow> string option" where
  "date_of_birth_line rec =
     do {
       has \<leftarrow> py_has ''date_of_birth'' rec;
       if has
       then do {
         dob \<leftarrow> py_item rec ''date_of_birth'';
         month \<leftarrow> py_get dob ''month'' (JStr []);
         year \<leftarrow> py_get dob ''year'' (JStr []);
         Some (''  Date of Birth: '' @ py_str month @ ''/'' @ py_str year @ ''\<newline>'')
       }
       else Some []
     }"

definition address_line :: "json \<Rightarrow> string option" where
  "address_line rec =
     do {
       has \<leftarrow> py_has ''address'' rec;
       if has
       then do {
         addr \<leftarrow> py_item rec ''address'';
         line \<leftarrow> address_text addr;
         Some (''  Address: '' @ line @ ''\<newline>'')
       }
       else Some []
     }"

definition officer_entry :: "nat \<Rightarrow> json \<Rightarrow> string option" where
  "officer_entry i officer =
     do {
       name \<leftarrow> py_get officer ''name'' NA;
       officer_role \<leftarrow> py_get officer ''officer_role'' NA;
       appointed_on \<leftarrow> py_get officer ''appointed_on'' NA;
       resigned \<leftarrow> optional_line officer ''resigned_on'' ''  Resigned On: '';
       nationality \<leftarrow> optional_line officer ''nationality'' ''  Nationality: '';
       country \<leftarrow> optional_line officer ''country_of_residence'' ''  Country of Residence: '';
       occupation \<leftarrow> optional_line officer ''occupation'' ''  Occupation: '';
       dob \<leftarrow> date_of_birth_line officer;
       address \<leftarrow> address_line officer;
       Some (''Officer '' @ str_nat i @ '':\<newline>''
             @ ''  Name: '' @ py_str name @ ''\<newline>''
             @ ''  Role: '' @ py_str officer_role @ ''\<newline>''
             @ ''  Appointed On: '' @ py_str appointed_on @ ''\<newline>''
             @ resigned @ nationality @ country @ occupation @ dob @ address
             @ ''\<newline>'' @ replicate 50 CHR ''='' @ ''\<newline>\<newline>'')
     }"

text \<open>A \<open>for i, x in enumerate(xs, i)\<close> loop that appends one rendered entry per element.\<close>

fun entries_loop :: "(nat \<Rightarrow> json \<Rightarrow> string option) \<Rightarrow> string \<Rightarrow> nat \<Rightarrow> json list \<Rightarrow> string option"
where
  "entries_loop entry text i [] = Some text"
| "entries_loop entry text i (x # xs) =
     do { e \<leftarrow> entry i x; entries_loop entry (text @ e) (i + 1) xs }"

definition format_officers :: "json \<Rightarrow> string option" where
  "format_officers data =
     (if \<not> truthy data
      then Some ''=== OFFICERS INFORMATION ===\<newline>\<newline>No officers data available\<newline>''
      else do {
        has \<leftarrow> py_has ''items'' data;
        if \<not> has
        then Some ''=== OFFICERS INFORMATION ===\<newline>\<newline>No officers data available\<newline>''
        else do {
          total \<leftarrow> py_get data ''total_results'' (JInt 0);
          items \<leftarrow> py_get data ''items'' (JList []);
          officers \<leftarrow> py_iter items;
          entries_loop officer_entry
            (''=== OFFICERS INFORMATION ===\<newline>\<newline>''
             @ ''Total Officers: '' @ py_str total @ ''\<newline>\<newline>'') 1 officers
        }
      })"

definition natures_of_control_lines :: "json \<Rightarrow> string option" where
  "natures_of_control_lines psc =
     do {
       has \<leftarrow> py_has ''natures_of_control'' psc;
       if has
       then do {
         natures \<leftarrow> py_item psc ''natures_of_control'';
         controls \<leftarrow> py_iter natures;
         Some (''  Nature of Control:\<newline>''
               @ concat (map (\<lambda>control. ''    - '' @ py_str control @ ''\<newline>'') controls))
       }
       else Some []
     }"

definition psc_entry :: "nat \<Rightarrow> json \<Rightarrow> string option" where
  "psc_entry i psc =
     do {
       name \<leftarrow> py_get psc ''name'' NA;
       kind \<leftarrow> py_get psc ''kind'' NA;
       notified_on \<leftarrow> py_get psc ''notified_on'' NA;
       nationality \<leftarrow> optional_line psc ''nationality'' ''  Nationality: '';
       country \<leftarrow> optional_line psc ''country_of_residence'' ''  Country of Residence: '';
       dob \<leftarrow> date_of_birth_line psc;
       natures \<leftarrow> natures_of_control_lines psc;
       address \<leftarrow> address_line psc;
       Some (''PSC '' @ str_nat i @ '':\<newline>''
             @ ''  Name: '' @ py_str name @ ''\<newline>''
             @ ''  Kind: '' @ py_str kind @ ''\<newline>''
             @ ''  Notified On: '' @ py_str notified_on @ ''\<newline>''
             @ nationality @ country @ dob @ natures @ address
             @ ''\<newline>'' @ replicate 50 CHR ''='' @ ''\<newline>\<newline>'')
     }"

definition format_psc :: "json \<Rightarrow> string option" where
  "format_psc data =
     (if \<not> truthy data
      then Some ''=== PERSONS WITH SIGNIFICANT CONTROL ===\<newline>\<newline>No PSC data available\<newline>''
      else do {
        has \<leftarrow> py_has ''items'' data;
        if \<not> has
        then Some ''=== PERSONS WITH SIGNIFICANT CONTROL ===\<newline>\<newline>No PSC data available\<newline>''
        else do {
          total \<leftarrow> py_get data ''total_results'' (JInt 0);
          items \<leftarrow> py_get data ''items'' (JList []);
          pscs \<leftarrow> py_iter items;
          entries_loop psc_entry
            (''=== PERSONS WITH SIGNIFICANT CONTROL ===\<newline>\<newline>''
             @ ''Total PSCs: '' @ py_str total @ ''\<newline>\<newline>'') 1 pscs
        }
      })"

definition document_available :: "json \<Rightarrow> bool option" where
  "document_available filing =
     do {
       has_links \<leftarrow> py_has ''links'' filing;
       if has_links
       then do { links \<leftarrow> py_item filing ''links''; py_has ''document_metadata'' links }
       else Some False
     }"

definition filing_entry :: "nat \<Rightarrow> json \<Rightarrow> string option" where
  "filing_entry i filing =
     do {
       date \<leftarrow> py_get filing ''date'' NA;
       descr \<leftarrow> py_get filing ''description'' NA;
       category \<leftarrow> py_get filing ''category'' NA;
       ftype \<leftarrow> py_get filing ''type'' NA;
       action_date \<leftarrow> optional_line filing ''action_date'' ''  Action Date: '';
       pages \<leftarrow> optional_line filing ''pages'' ''  Pages: '';
       available \<leftarrow> document_available filing;
       Some (''Filing '' @ str_nat i @ '':\<newline>''
             @ ''  Date: '' @ py_str date @ ''\<newline>''
             @ ''  Description: '' @ py_str descr @ ''\<newline>''
             @ ''  Category: '' @ py_str category @ ''\<newline>''
             @ ''  Type: '' @ py_str ftype @ ''\<newline>''
             @ action_date @ pages
             @ (if available then ''  Document Available: Yes\<newline>''
                else ''  Document Available: No\<newline>'')
             @ ''\<newline>'' @ replicate 40 CHR ''-'' @ ''\<newline>\<newline>'')
     }"

definition format_filing_history :: "json \<Rightarrow> string option" where
  "format_filing_history data =
     (if \<not> truthy data
      then Some ''=== FILING HISTORY ===\<newline>\<newline>No filing history available\<newline>''
      else do {
        has \<leftarrow> py_has ''items'' data;
        if \<not> has
        then Some ''=== FILING HISTORY ===\<newline>\<newline>No filing history available\<newline>''
        else do {
          total \<leftarrow> py_get data ''total_count'' (JInt 0);
          items \<leftarrow> py_get data ''items'' (JList []);
          shown \<leftarrow> py_slice items 15;
          filings \<leftarrow> py_iter shown;
          entries_loop filing_entry
            (''=== FILING HISTORY ===\<newline>\<newline>''
             @ ''Total Filings: '' @ py_str total @ ''\<newline>\<newline>'') 1 filings
        }
      })"

section \<open>Environment and scraper state\<close>

text \<open>
  A file holds bytes or an archive, the ordered list of its entries. A text file is stored as
  its text (the UTF-8 encoding is not modelled).
\<close>

datatype blob = Bytes string | Zip "(string \<times> blob) list"

text \<open>
  What the program reads from outside: the network, the formatted current time, \<open>tempfile.mkdtemp\<close>
  by prefix (\<open>None\<close> when it raises), whether a file can be opened for writing at a path, and
  the two environment variables.
\<close>

record world =
  w_net :: network
  w_clock :: string
  w_mkdtemp :: "string \<Rightarrow> string option"
  w_writable :: "string \<Rightarrow> bool"
  w_api_key :: "string option"
  w_admin_password :: "string option"

record state =
  temp_dir :: "string option"
  requests :: "request list"
  files :: "string \<rightharpoonup> blob"

definition os_path_join :: "string \<Rightarrow> string \<Rightarrow> string" where
  "os_path_join a b =
     (if py_startswith b ''/'' then b
      else if a = [] \<or> last a = CHR ''/'' then a @ b
      else a @ ''/'' @ b)"

definition os_path_basename :: "string \<Rightarrow> string" where
  "os_path_basename p = rev (takeWhile (\<lambda>c. c \<noteq> CHR ''/'') (rev p))"

definition create_temp_directory :: "world \<Rightarrow> string \<Rightarrow> state \<Rightarrow> state option" where
  "create_temp_directory w company_id st =
     map_option (\<lambda>d. st\<lparr>temp_dir := Some d\<rparr>) (w_mkdtemp w (''company_'' @ company_id @ ''_''))"

section \<open>Registry Client\<close>

text \<open>
  The four fetchers differ in the endpoint and in the messages they show: a 200 answer gives
  \<open>response.json()\<close>, everything else (another status, an exception of the request or of
  the decoding) gives the empty dict.
\<close>

definition api_fetch :: "world \<Rightarrow> string \<Rightarrow> state \<Rightarrow> json \<times> state" where
  "api_fetch w endpoint st =
     (case send (w_net w) (Api_get endpoint) (requests st) of
        (None, log') \<Rightarrow> (JDict [], st\<lparr>requests := log'\<rparr>)
      | (Some resp, log') \<Rightarrow>
          (if status_code resp = 200
           then (case json_body resp of None \<Rightarrow> JDict [] | Some j \<Rightarrow> j)
           else JDict [],
           st\<lparr>requests := log'\<rparr>))"

definition get_company_profile_api :: "world \<Rightarrow> string \<Rightarrow> state \<Rightarrow> json \<times> state" where
  "get_company_profile_api w company_id st = api_fetch w (api_base @ ''/company/'' @ company_id) st"

definition get_officers_api :: "world \<Rightarrow> string \<Rightarrow> state \<Rightarrow> json \<times> state" where
  "get_officers_api w company_id st =
     api_fetch w (api_base @ ''/company/'' @ company_id @ ''/officers'') st"

definition get_psc_api :: "world \<Rightarrow> string \<Rightarrow> state \<Rightarrow> json \<times> state" where
  "get_psc_api w company_id st =
     api_fetch w (api_base @ ''/company/'' @ company_id @ ''/persons-with-significant-control'') st"

definition get_filing_history_api :: "world \<Rightarrow> string \<Rightarrow> state \<Rightarrow> json \<times> state" where
  "get_filing_history_api w company_id st =
     api_fetch w (api_base @ ''/company/'' @ company_id @ ''/filing-history'') st"

text \<open>\<open>search_companies\<close>: the \<open>items\<close> of a 200 answer, the empty list otherwise.\<close>

definition search_companies :: "world \<Rightarrow> string \<Rightarrow> state \<Rightarrow> json \<times> state" where
  "search_companies w search_term st =
     (case send (w_net w) (Api_search (api_base @ ''/search/companies'') search_term) (requests st) of
        (None, log') \<Rightarrow> (JList [], st\<lparr>requests := log'\<rparr>)
      | (Some resp, log') \<Rightarrow>
          (if status_code resp = 200
           then (case json_body resp of
                   None \<Rightarrow> JList []
                 | Some j \<Rightarrow> (case py_get j ''items'' (JList []) of None \<Rightarrow> JList [] | Some v \<Rightarrow> v))
           else JList [],
           st\<lparr>requests := log'\<rparr>))"

section \<open>Download Manager\<close>

definition download_pdf :: "world \<Rightarrow> pdf_info \<Rightarrow> string \<Rightarrow> state \<Rightarrow> bool \<times> state" where
  "download_pdf w info filename st =
     (case send (w_net w) (Web_get (url info)) (requests st) of
        (None, log') \<Rightarrow> (False, st\<lparr>requests := log'\<rparr>)
      | (Some resp, log') \<Rightarrow>
          if status_code resp = 200
          then if w_writable w filename
               then (True, st\<lparr>requests := log', files := (files st)(filename \<mapsto> Bytes (content resp))\<rparr>)
               else (False, st\<lparr>requests := log'\<rparr>)
          else (False, st\<lparr>requests := log'\<rparr>))"

definition ok_mark :: string where
  "ok_mark = [CHR 0xE2, CHR 0x9C, CHR 0x85]"

definition fail_mark :: string where
  "fail_mark = [CHR 0xE2, CHR 0x9D, CHR 0x8C]"

definition pdf_filename :: "string \<Rightarrow> nat \<Rightarrow> string" where
  "pdf_filename company_id i = ''filing_document_'' @ str_nat (i + 1) @ ''_'' @ company_id @ ''.pdf''"

definition downloaded_line :: "string \<Rightarrow> pdf_info \<Rightarrow> string" where
  "downloaded_line filename info =
     ok_mark @ '' Downloaded: '' @ filename @ '' (Page '' @ str_nat (page info) @ '')\<newline>''"

definition failed_line :: "pdf_info \<Rightarrow> string" where
  "failed_line info =
     fail_mark @ '' Failed: '' @ description info @ '' (Page '' @ str_nat (page info) @ '')\<newline>''"

text \<open>
  The loop \<open>for i, pdf_info in enumerate(pdf_links)\<close> of \<open>create_zip_file\<close>, from index \<open>i\<close>
  on, with \<open>pdf_files\<close> and \<open>pdf_log\<close> as accumulators.
\<close>

fun download_loop ::
  "world \<Rightarrow> string \<Rightarrow> string \<Rightarrow> nat \<Rightarrow> pdf_info list \<Rightarrow> string list \<Rightarrow> string \<Rightarrow> state
     \<Rightarrow> string list \<times> string \<times> state"
where
  "download_loop w company_id dir i [] pdf_files pdf_log st = (pdf_files, pdf_log, st)"
| "download_loop w company_id dir i (info # rest) pdf_files pdf_log st =
     (let filename = pdf_filename company_id i;
          pdf_path = os_path_join dir filename
      in case download_pdf w info pdf_path st of
           (True, st') \<Rightarrow>
             download_loop w company_id dir (i + 1) rest (pdf_files @ [pdf_path])
               (pdf_log @ downloaded_line filename info) st'
         | (False, st') \<Rightarrow>
             download_loop w company_id dir (i + 1) rest pdf_files
               (pdf_log @ failed_line info) st')"

text \<open>
  Whether \<open>download_pdf\<close> returns \<open>True\<close> when the requests issued so far are \<open>log\<close>; its answer
  depends on nothing else of the state.
\<close>

definition download_succeeds :: "world \<Rightarrow> request list \<Rightarrow> pdf_info \<Rightarrow> string \<Rightarrow> bool" where
  "download_succeeds w log info filename =
     fst (download_pdf w info filename \<lparr>temp_dir = None, requests = log, files = Map.empty\<rparr>)"

text \<open>The path of the document with index \<open>k\<close>, and the requests for a list of links.\<close>

abbreviation pdf_path :: "string \<Rightarrow> string \<Rightarrow> nat \<Rightarrow> string" where
  "pdf_path dir cid k \<equiv> os_path_join dir (pdf_filename cid k)"

abbreviation download_requests :: "pdf_info list \<Rightarrow> request list" where
  "download_requests links \<equiv> map (\<lambda>info. Web_get (url info)) links"

section \<open>Archive Builder: assembling the package\<close>

text \<open>
  Writing the four rendered sections in turn: each path joins \<open>files_created\<close> once its file
  is written; a formatter that raised, or a file that cannot be written, ends the run.
\<close>

fun write_sections ::
  "world \<Rightarrow> (string \<times> string option) list \<Rightarrow> string list \<Rightarrow> state \<Rightarrow> string list option \<times> state"
where
  "write_sections w [] files_created st = (Some files_created, st)"
| "write_sections w ((path, text) # rest) files_created st =
     (case text of
        None \<Rightarrow> (None, st)
      | Some t \<Rightarrow>
          if w_writable w path
          then write_sections w rest (files_created @ [path])
                 (st\<lparr>files := (files st)(path \<mapsto> Bytes t)\<rparr>)
          else (None, st))"

fun max_list :: "nat list \<Rightarrow> nat" where
  "max_list [] = 0"
| "max_list (x # xs) = (if xs = [] then x else max x (max_list xs))"

definition summary_text_of :: "world \<Rightarrow> string \<Rightarrow> string list \<Rightarrow> string list \<Rightarrow> pdf_info list \<Rightarrow> string"
where
  "summary_text_of w company_id files_created pdf_files pdf_links =
     ''=== COMPANY DATA EXTRACTION SUMMARY ===\<newline>\<newline>''
     @ ''Company ID: '' @ company_id @ ''\<newline>''
     @ ''Extraction Date: '' @ w_clock w @ ''\<newline>''
     @ ''Method: Hybrid (Companies House API + Multi-Page Web Scraping)\<newline>\<newline>''
     @ ''Files Created: '' @ str_nat (length files_created) @ '' text files\<newline>''
     @ ''PDFs Downloaded: '' @ str_nat (length pdf_files) @ ''\<newline>''
     @ ''Pages Scraped: ''
     @ str_nat (if pdf_links \<noteq> [] then max_list (map page pdf_links) else 1) @ ''\<newline>''"

text \<open>
  \<open>zipfile.ZipFile(zip_path, 'w')\<close> with one \<open>zipf.write(path, os.path.basename(path))\<close> per
  path: the archive file is created first, then each file is read and added.
\<close>

definition write_zip :: "world \<Rightarrow> string \<Rightarrow> string list \<Rightarrow> state \<Rightarrow> bool \<times> state" where
  "write_zip w zip_path paths st =
     (if \<not> w_writable w zip_path then (False, st)
      else let fs = (files st)(zip_path \<mapsto> Zip [])
           in case those (map (\<lambda>p. map_option (\<lambda>b. (os_path_basename p, b)) (fs p)) paths) of
                None \<Rightarrow> (False, st\<lparr>files := fs\<rparr>)
              | Some entries \<Rightarrow> (True, st\<lparr>files := fs(zip_path \<mapsto> Zip entries)\<rparr>))"

text \<open>The local variables of \<open>create_zip_file\<close> at its last \<open>return\<close>.\<close>

record locals =
  l_pdf_links :: "pdf_info list"
  l_pdf_files :: "string list"
  l_pdf_log :: string
  l_files_created :: "string list"
  l_summary_text :: string
  l_zip_path :: string

datatype run = Raised | No_connection | Done locals

definition create_zip_file_body :: "world \<Rightarrow> string \<Rightarrow> state \<Rightarrow> run \<times> state" where
  "create_zip_file_body w company_id st0 =
     (case (if temp_dir st0 = None \<or> temp_dir st0 = Some []
            then create_temp_directory w company_id st0 else Some st0) of
        None \<Rightarrow> (Raised, st0)
      | Some st1 \<Rightarrow>
         (case test_api_connection (w_net w) company_id (requests st1) of
            (False, log') \<Rightarrow> (No_connection, st1\<lparr>requests := log'\<rparr>)
          | (True, log') \<Rightarrow>
             (let dir = (case temp_dir st1 of None \<Rightarrow> [] | Some d \<Rightarrow> d);
                  (company_profile, st2) = get_company_profile_api w company_id (st1\<lparr>requests := log'\<rparr>);
                  (officers_data, st3) = get_officers_api w company_id st2;
                  (psc_data, st4) = get_psc_api w company_id st3;
                  (filing_history_data, st5) = get_filing_history_api w company_id st4;
                  (pdf_links, log6) = get_pdf_links_scraping (w_net w) company_id (requests st5);
                  (pdf_files, pdf_log, st7) =
                     download_loop w company_id dir 0 pdf_links []
                       ''\<newline>=== PDF DOCUMENTS ===\<newline>\<newline>'' (st5\<lparr>requests := log6\<rparr>)
              in case write_sections w
                   [(os_path_join dir (company_id @ ''_overview.txt''),
                       format_company_profile company_profile),
                    (os_path_join dir (company_id @ ''_officers.txt''),
                       format_officers officers_data),
                    (os_path_join dir (company_id @ ''_psc.txt''),
                       format_psc psc_data),
                    (os_path_join dir (company_id @ ''_filing_history.txt''),
                       map_option (\<lambda>t. t @ pdf_log) (format_filing_history filing_history_data))]
                   [] st7 of
                   (None, st8) \<Rightarrow> (Raised, st8)
                 | (Some files_created, st8) \<Rightarrow>
                    (let summary_text = summary_text_of w company_id files_created pdf_files pdf_links;
                         summary_path = os_path_join dir (company_id @ ''_summary.txt'')
                     in if \<not> w_writable w summary_path then (Raised, st8)
                        else
                          (let st9 = st8\<lparr>files := (files st8)(summary_path \<mapsto> Bytes summary_text)\<rparr>;
                               files_created' = files_created @ [summary_path];
                               zip_path = os_path_join dir (''company_'' @ company_id @ ''_data.zip'')
                           in case write_zip w zip_path (files_created' @ pdf_files) st9 of
                                (False, st10) \<Rightarrow> (Raised, st10)
                              | (True, st10) \<Rightarrow>
                                  (Done \<lparr>l_pdf_links = pdf_links, l_pdf_files = pdf_files,
                                         l_pdf_log = pdf_log, l_files_created = files_created',
                                         l_summary_text = summary_text, l_zip_path = zip_path\<rparr>,
                                   st10))))))"

text \<open>
  What \<open>create_zip_file\<close> hands to its caller: \<open>None\<close> when it raises, otherwise the pair of
  the archive path (Python's \<open>None\<close> when the connection test failed) and the file count.
\<close>

definition create_zip_file :: "world \<Rightarrow> string \<Rightarrow> state \<Rightarrow> (string option \<times> nat) option \<times> state" where
  "create_zip_file w company_id st =
     (case create_zip_file_body w company_id st of
        (Raised, st') \<Rightarrow> (None, st')
      | (No_connection, st') \<Rightarrow> (Some (None, 0), st')
      | (Done l, st') \<Rightarrow>
          (Some (Some (l_zip_path l), length (l_files_created l) + length (l_pdf_files l)), st'))"

definition cleanup :: "state \<Rightarrow> state" where
  "cleanup st =
     (case temp_dir st of
        None \<Rightarrow> st
      | Some d \<Rightarrow>
          if d = [] then st
          else st\<lparr>files := (\<lambda>p. if py_startswith p (d @ ''/'') then None else files st p)\<rparr>)"

text \<open>The directory of a run, as \<open>self.temp_dir\<close> holds it.\<close>

abbreviation run_dir :: "state \<Rightarrow> string" where
  "run_dir st \<equiv> (case temp_dir st of None \<Rightarrow> [] | Some d \<Rightarrow> d)"

section \<open>Extraction Session\<close>

text \<open>
  \<open>st.session_state\<close> after the module-level initialisation, which gives every key but
  \<open>password_correct\<close>, \<open>password\<close> and \<open>selected_company\<close> a value on each run. Deleting
  all keys, followed by that initialisation on the next run, is \<open>fresh_session\<close>.
\<close>

record session =
  password_correct :: "bool option"
  password :: "string option"
  search_results :: json
  search_term :: string
  extraction_in_progress :: bool
  extraction_complete :: bool
  zip_data :: "blob option"
  file_count :: nat
  last_search_term :: string
  selected_company :: "json option"

definition fresh_session :: session where
  "fresh_session =
     \<lparr>password_correct = None, password = None, search_results = JList [], search_term = [],
      extraction_in_progress = False, extraction_complete = False, zip_data = None,
      file_count = 0, last_search_term = [], selected_company = None\<rparr>"

text \<open>What the widgets return in one run of the script.\<close>

record widgets =
  logout_button :: bool
  start_again_button :: bool
  logout_button_done :: bool
  search_input :: string
  search_button :: bool
  clear_button :: bool
  extract_button :: "nat \<Rightarrow> bool"
  company_input :: string
  direct_button :: bool

text \<open>
  The messages and the download button a run shows; layout and progress calls are left out.
  Error and warning texts are given without their leading pictograph and without the text of
  the exception they quote.
\<close>

datatype shown =
    Success string
  | Info string
  | Error string
  | Warning string
  | Download_button "blob option" string
  | Password_form

text \<open>
  How a run of \<open>main\<close> ends: it returns, or \<open>st.rerun()\<close> or \<open>st.stop()\<close> ends the script
  (neither is caught by \<open>except Exception\<close>), or an exception escapes.
\<close>

datatype ending = Returned | Rerun | Stopped | Crashed

record outcome =
  o_ending :: ending
  o_session :: session
  o_shown :: "shown list"
  o_state :: state

definition check_password :: "world \<Rightarrow> session \<Rightarrow> (bool \<times> shown list) option" where
  "check_password w s =
     (if password_correct s = Some True then Some (True, [])
      else if w_admin_password w = None \<or> w_admin_password w = Some []
      then None
      else Some (False,
             Password_form
             # (if password_correct s = Some False
                then [Error (fail_mark @ '' Password incorrect. Please try again.'')] else [])))"

definition logout :: "session \<Rightarrow> session" where
  "logout s = fresh_session"

definition start_again :: "session \<Rightarrow> session" where
  "start_again s = fresh_session\<lparr>password_correct := password_correct s\<rparr>"

text \<open>The constructor of the scraper stops the script when the API key is not set.\<close>

definition has_api_key :: "world \<Rightarrow> bool" where
  "has_api_key w = (w_api_key w \<noteq> None \<and> w_api_key w \<noteq> Some [])"

text \<open>The branch of \<open>main\<close> taken while \<open>extraction_in_progress\<close> is set.\<close>

definition extraction_branch :: "world \<Rightarrow> widgets \<Rightarrow> session \<Rightarrow> state \<Rightarrow> outcome" where
  "extraction_branch w ui s st =
     (let company_id = py_str (case selected_company s of None \<Rightarrow> JStr [] | Some c \<Rightarrow> c)
      in if extraction_complete s
         then (let view =
                     [Success (ok_mark @ '' Successfully extracted company '' @ company_id @ ''!''),
                      Info (''Package contains '' @ str_nat (file_count s) @ '' files''),
                      Download_button (zip_data s) (''company_'' @ company_id @ ''_data.zip'')]
               in if start_again_button ui
                  then \<lparr>o_ending = Rerun, o_session = start_again s, o_shown = view, o_state = st\<rparr>
                  else if logout_button_done ui
                  then \<lparr>o_ending = Rerun, o_session = logout s, o_shown = view, o_state = st\<rparr>
                  else \<lparr>o_ending = Returned, o_session = s, o_shown = view, o_state = st\<rparr>)
         else (let info = Info (''Extracting data for company: '' @ company_id)
               in if \<not> has_api_key w
                  then \<lparr>o_ending = Stopped, o_session = s,
                        o_shown = [info, Error ''COMPANIES_HOUSE_API_KEY environment variable not set!''],
                        o_state = st\<rparr>
                  else (let scraper = st\<lparr>temp_dir := None\<rparr>
                        in case create_temp_directory w company_id scraper of
                             None \<Rightarrow>
                               \<lparr>o_ending = Returned,
                                o_session = s\<lparr>extraction_in_progress := False\<rparr>,
                                o_shown = [info, Error ''An error occurred''],
                                o_state = cleanup scraper\<rparr>
                           | Some st1 \<Rightarrow>
                               (case create_zip_file w company_id st1 of
                                  (None, st2) \<Rightarrow>
                                    \<lparr>o_ending = Returned,
                                     o_session = s\<lparr>extraction_in_progress := False\<rparr>,
                                     o_shown = [info, Error ''An error occurred''],
                                     o_state = cleanup st2\<rparr>
                                | (Some (zip_path, count), st2) \<Rightarrow>
                                    (case (case zip_path of None \<Rightarrow> None
                                           | Some p \<Rightarrow> if p = [] then None else files st2 p) of
                                       Some zip_bytes \<Rightarrow>
                                         \<lparr>o_ending = Rerun,
                                          o_session = s\<lparr>zip_data := Some zip_bytes, file_count := count,
                                                        extraction_complete := True\<rparr>,
                                          o_shown = [info],
                                          o_state = cleanup st2\<rparr>
                                     | None \<Rightarrow>
                                         \<lparr>o_ending = Returned,
                                          o_session = s\<lparr>extraction_in_progress := False\<rparr>,
                                          o_shown = [info,
                                            Error ''Failed to create the data package. Please try again.''],
                                          o_state = st2\<rparr>)))))"

text \<open>\<open>len(x)\<close>.\<close>

fun py_len :: "json \<Rightarrow> nat option" where
  "py_len (JList xs) = Some (length xs)"
| "py_len (JStr s) = Some (length s)"
| "py_len (JDict kvs) = Some (length kvs)"
| "py_len _ = None"

text \<open>
  The loop over the search results: \<open>None\<close> when a row raises, otherwise the company number
  of the first row whose button was pressed, if any.
\<close>

fun results_loop :: "widgets \<Rightarrow> nat \<Rightarrow> json list \<Rightarrow> json option option" where
  "results_loop ui i [] = Some None"
| "results_loop ui i (company # rest) =
     do {
       company_name \<leftarrow> py_get company ''title'' (JStr ''Unknown Company'');
       company_number \<leftarrow> py_get company ''company_number'' (JStr ''Unknown'');
       company_status \<leftarrow> py_get company ''company_status'' (JStr ''Unknown'');
       address \<leftarrow> py_get company ''address_snippet'' (JStr ''No address available'');
       if extract_button ui i then Some (Some company_number) else results_loop ui (i + 1) rest
     }"

text \<open>The two tabs of \<open>main\<close>, shown while no extraction is in progress.\<close>

definition tabs_branch :: "world \<Rightarrow> widgets \<Rightarrow> session \<Rightarrow> state \<Rightarrow> outcome" where
  "tabs_branch w ui s0 st =
     (let s = s0\<lparr>last_search_term := search_input ui\<rparr>
      in if search_button ui \<and> search_input ui \<noteq> [] \<and> \<not> has_api_key w
         then \<lparr>o_ending = Stopped, o_session = s,
               o_shown = [Error ''COMPANIES_HOUSE_API_KEY environment variable not set!''],
               o_state = st\<rparr>
         else if search_button ui \<and> search_input ui \<noteq> []
         then (case search_companies w (search_input ui) st of
                 (found, st') \<Rightarrow>
                   \<lparr>o_ending = Rerun,
                    o_session = s\<lparr>search_results := found, search_term := search_input ui,
                                  last_search_term := search_input ui\<rparr>,
                    o_shown = [], o_state = st'\<rparr>)
         else (let shown1 = (if search_button ui then [Error ''Please enter a search term!''] else [])
               in if clear_button ui
                  then \<lparr>o_ending = Rerun,
                        o_session = s\<lparr>search_results := JList [], search_term := [],
                                      last_search_term := []\<rparr>,
                        o_shown = shown1, o_state = st\<rparr>
                  else (case (if truthy (search_results s)
                              then do {
                                n \<leftarrow> py_len (search_results s);
                                rows \<leftarrow> py_iter (search_results s);
                                pick \<leftarrow> results_loop ui 0 rows;
                                Some ([Success (''Found '' @ str_nat n @ '' companies:'')], pick)
                              }
                              else Some (if search_term s \<noteq> []
                                         then [Warning ''No companies found with that search term. Try a different search.'']
                                         else [], None)) of
                          None \<Rightarrow>
                            \<lparr>o_ending = Crashed, o_session = s, o_shown = shown1, o_state = st\<rparr>
                        | Some (shown2, Some company_number) \<Rightarrow>
                            \<lparr>o_ending = Rerun,
                             o_session = s\<lparr>selected_company := Some company_number,
                                           extraction_in_progress := True,
                                           extraction_complete := False\<rparr>,
                             o_shown = shown1 @ shown2, o_state = st\<rparr>
                        | Some (shown2, None) \<Rightarrow>
                            if direct_button ui \<and> company_input ui \<noteq> []
                            then \<lparr>o_ending = Rerun,
                                  o_session = s\<lparr>selected_company := Some (JStr (company_input ui)),
                                                extraction_in_progress := True,
                                                extraction_complete := False\<rparr>,
                                  o_shown = shown1 @ shown2, o_state = st\<rparr>
                            else \<lparr>o_ending = Returned, o_session = s,
                                  o_shown = shown1 @ shown2
                                    @ (if direct_button ui then [Error ''Please enter a company number!'']
                                       else []),
                                  o_state = st\<rparr>)))"

definition main :: "world \<Rightarrow> widgets \<Rightarrow> session \<Rightarrow> state \<Rightarrow> outcome" where
  "main w ui s st =
     (case check_password w s of
        None \<Rightarrow>
          \<lparr>o_ending = Stopped, o_session = s,
           o_shown = [Error ''SCRAPER_PASSWORD environment variable not configured!''], o_state = st\<rparr>
      | Some (False, view) \<Rightarrow> \<lparr>o_ending = Returned, o_session = s, o_shown = view, o_state = st\<rparr>
      | Some (True, view) \<Rightarrow>
          if logout_button ui
          then \<lparr>o_ending = Rerun, o_session = logout s, o_shown = view, o_state = st\<rparr>
          else if extraction_in_progress s then extraction_branch w ui s st
          else tabs_branch w ui s st)"

section \<open>A sample run\<close>

text \<open>
  One concrete environment, on which the statements below are evaluated: the registry answers
  every lookup with the same small record; the first listing page carries two document links
  and a link to the next page, the second page carries no document link but still a link to a
  third page; the first document cannot be fetched, the second can.
\<close>

definition sample_id :: string where
  "sample_id = ''00006245''"

definition sample_record :: json where
  "sample_record =
     JDict [(''company_name'', JStr ''TESCO PLC''), (''company_status'', JStr ''active''),
            (''total_count'', JInt 3),
            (''items'', JList [JDict [(''date'', JStr ''2020-01-01''), (''name'', JStr ''A'')]])]"

definition sample_net :: network where
  "sample_net log r =
     (case r of
        Api_get u \<Rightarrow>
          Some \<lparr>status_code = 200, json_body = Some sample_record, anchors = [], content = []\<rparr>
      | Api_search u t \<Rightarrow> None
      | Web_get u \<Rightarrow>
          if u = listing_url sample_id 1
          then Some \<lparr>status_code = 200, json_body = None,
                     anchors = [(''/a.pdf'', ''View PDF''), (''/b.pdf'', ''View PDF''),
                                (''?page=2'', ''Next'')],
                     content = []\<rparr>
          else if u = listing_url sample_id 2
          then Some \<lparr>status_code = 200, json_body = None,
                     anchors = [(''?page=3'', ''Next'')], content = []\<rparr>
          else if u = web_base @ ''/b.pdf''
          then Some \<lparr>status_code = 200, json_body = None, anchors = [], content = ''%PDF''\<rparr>
          else Some \<lparr>status_code = 404, json_body = None, anchors = [], content = []\<rparr>)"

definition sample_world :: world where
  "sample_world =
     \<lparr>w_net = sample_net, w_clock = ''2024-01-01 12:00:00'',
      w_mkdtemp = (\<lambda>prefix. Some (''/tmp/'' @ prefix @ ''x'')),
      w_writable = (\<lambda>p. True), w_api_key = Some ''key'', w_admin_password = Some ''pw''\<rparr>"

text \<open>The same environment with a registry that rejects the credential.\<close>

definition unauthorized_world :: world where
  "unauthorized_world =
     sample_world\<lparr>w_net := (\<lambda>log r.
        Some \<lparr>status_code = 401, json_body = None, anchors = [], content = []\<rparr>)\<rparr>"

definition sample_state :: state where
  "sample_state = \<lparr>temp_dir = None, requests = [], files = Map.empty\<rparr>"

definition sample_dir :: string where
  "sample_dir = ''/tmp/company_00006245_x''"

text \<open>A listing whose every page carries one document link and a link to the next page.\<close>

definition endless_net :: network where
  "endless_net log r =
     Some \<lparr>status_code = 200, json_body = None,
           anchors = [(''/doc.pdf'', ''View PDF''), (''/more'', ''Next'')], content = []\<rparr>"

text \<open>A filing history of sixteen items that reports forty filings.\<close>

definition long_history :: json where
  "long_history =
     JDict [(''total_count'', JInt 40),
            (''items'', JList (replicate 16 (JDict [(''date'', JStr ''2020-01-01'')])))]"

text \<open>A session that has completed an extraction, and a run in which nothing is pressed.\<close>

definition complete_session :: session where
  "complete_session =
     fresh_session\<lparr>password_correct := Some True, extraction_in_progress := True,
                   extraction_complete := True, zip_data := Some (Zip [(''a.txt'', Bytes ''x'')]),
                   file_count := 5, selected_company := Some (JStr sample_id)\<rparr>"

definition no_clicks :: widgets where
  "no_clicks =
     \<lparr>logout_button = False, start_again_button = False, logout_button_done = False,
      search_input = [], search_button = False, clear_button = False,
      extract_button = (\<lambda>i. False), company_input = [], direct_button = False\<rparr>"

section \<open>Auxiliary facts\<close>

lemma write_sections_created:
  "write_sections w secs created st = (Some fc, st') \<Longrightarrow> fc = created @ map fst secs"
proof (induction secs arbitrary: created st)
  case Nil
  then show ?case by simp
next
  case (Cons sec secs)
  obtain path body where sec: "sec = (path, body)" by (cases sec)
  from Cons.prems sec obtain t where t: "body = Some t" "w_writable w path"
    "write_sections w secs (created @ [path]) (st\<lparr>files := (files st)(path \<mapsto> Bytes t)\<rparr>) = (Some fc, st')"
    by (auto split: option.splits if_splits)
  from Cons.IH[OF t(3)] sec show ?case by simp
qed

lemma write_sections_state:
  "write_sections w secs created st = (r, st') \<Longrightarrow>
     requests st' = requests st \<and> temp_dir st' = temp_dir st"
proof (induction secs arbitrary: created st)
  case Nil
  then show ?case by simp
next
  case (Cons sec secs)
  obtain path body where sec: "sec = (path, body)" by (cases sec)
  show ?case
  proof (cases "body \<noteq> None \<and> w_writable w path")
    case True
    then obtain t where t: "body = Some t" by auto
    with True Cons.prems sec have
      "write_sections w secs (created @ [path]) (st\<lparr>files := (files st)(path \<mapsto> Bytes t)\<rparr>) = (r, st')"
      by simp
    from Cons.IH[OF this] show ?thesis by simp
  next
    case False
    with Cons.prems sec show ?thesis by (auto split: option.splits)
  qed
qed

lemma those_map_option:
  "those (map (\<lambda>p. map_option (g p) (h p)) xs) = Some ys \<Longrightarrow>
     ys = map (\<lambda>p. g p (the (h p))) xs \<and> (\<forall>p \<in> set xs. h p \<noteq> None)"
  by (induction xs arbitrary: ys) (auto split: option.splits)

lemma write_zip_True:
  assumes "write_zip w zp paths st = (True, st')"
  shows "w_writable w zp \<and> requests st' = requests st \<and> temp_dir st' = temp_dir st
    \<and> files st' = (files st)(zp \<mapsto> Zip (map (\<lambda>p. (os_path_basename p, the (((files st)(zp \<mapsto> Zip [])) p))) paths))
    \<and> (\<forall>p \<in> set paths. ((files st)(zp \<mapsto> Zip [])) p \<noteq> None)"
proof -
  let ?fs = "(files st)(zp \<mapsto> Zip [])"
  from assms have wr: "w_writable w zp"
    by (auto simp: write_zip_def split: if_splits)
  with assms obtain entries where e:
    "those (map (\<lambda>p. map_option (\<lambda>b. (os_path_basename p, b)) (?fs p)) paths) = Some entries"
    "st' = st\<lparr>files := ?fs(zp \<mapsto> Zip entries)\<rparr>"
    by (auto simp: write_zip_def Let_def split: option.splits)
  from those_map_option[OF e(1)] have
    "entries = map (\<lambda>p. (os_path_basename p, the (?fs p))) paths" "\<forall>p \<in> set paths. ?fs p \<noteq> None"
    by simp_all
  with wr e(2) show ?thesis by simp
qed

text \<open>A run of \<open>create_zip_file\<close> that reaches its last \<open>return\<close> went through every stage.\<close>

lemma body_Done:
  assumes "create_zip_file_body w cid st0 = (Done l, st')"
  obtains st1 log1 cp st2 od st3 pd st4 fh st5 links log6 pf pl st7 fc st8 dir where
    "(if temp_dir st0 = None \<or> temp_dir st0 = Some [] then create_temp_directory w cid st0 else Some st0) = Some st1"
    "test_api_connection (w_net w) cid (requests st1) = (True, log1)"
    "dir = (case temp_dir st1 of None \<Rightarrow> [] | Some d \<Rightarrow> d)"
    "get_company_profile_api w cid (st1\<lparr>requests := log1\<rparr>) = (cp, st2)"
    "get_officers_api w cid st2 = (od, st3)"
    "get_psc_api w cid st3 = (pd, st4)"
    "get_filing_history_api w cid st4 = (fh, st5)"
    "get_pdf_links_scraping (w_net w) cid (requests st5) = (links, log6)"
    "download_loop w cid dir 0 links [] ''\<newline>=== PDF DOCUMENTS ===\<newline>\<newline>'' (st5\<lparr>requests := log6\<rparr>) = (pf, pl, st7)"
    "write_sections w
       [(os_path_join dir (cid @ ''_overview.txt''), format_company_profile cp),
        (os_path_join dir (cid @ ''_officers.txt''), format_officers od),
        (os_path_join dir (cid @ ''_psc.txt''), format_psc pd),
        (os_path_join dir (cid @ ''_filing_history.txt''),
           map_option (\<lambda>t. t @ pl) (format_filing_history fh))] [] st7 = (Some fc, st8)"
    "w_writable w (os_path_join dir (cid @ ''_summary.txt''))"
    "write_zip w (os_path_join dir (''company_'' @ cid @ ''_data.zip''))
        ((fc @ [os_path_join dir (cid @ ''_summary.txt'')]) @ pf)
        (st8\<lparr>files := (files st8)(os_path_join dir (cid @ ''_summary.txt'')
                 \<mapsto> Bytes (summary_text_of w cid fc pf links))\<rparr>) = (True, st')"
    "l = \<lparr>l_pdf_links = links, l_pdf_files = pf, l_pdf_log = pl,
          l_files_created = fc @ [os_path_join dir (cid @ ''_summary.txt'')],
          l_summary_text = summary_text_of w cid fc pf links,
          l_zip_path = os_path_join dir (''company_'' @ cid @ ''_data.zip'')\<rparr>"
  using assms unfolding create_zip_file_body_def
  by (auto simp: Let_def split: option.splits prod.splits bool.splits if_splits)

lemma body_No_connection:
  assumes "(if temp_dir st = None \<or> temp_dir st = Some [] then create_temp_directory w cid st else Some st) = Some st1"
    and "\<not> fst (test_api_connection (w_net w) cid (requests st1))"
  shows "create_zip_file_body w cid st =
    (No_connection, st1\<lparr>requests := requests st1 @ [Api_get (api_base @ ''/company/'' @ cid)]\<rparr>)"
  using assms unfolding create_zip_file_body_def test_api_connection_def send_def
  by (simp split: option.splits)

text \<open>The sample run, evaluated once.\<close>

lemma sample_run_locals:
  "fst (create_zip_file_body sample_world sample_id sample_state) =
     Done \<lparr>l_pdf_links =
             [\<lparr>url = web_base @ ''/a.pdf'', description = ''View PDF'', page = 1\<rparr>,
              \<lparr>url = web_base @ ''/b.pdf'', description = ''View PDF'', page = 1\<rparr>],
           l_pdf_files = [sample_dir @ ''/filing_document_2_00006245.pdf''],
           l_pdf_log = ''\<newline>=== PDF DOCUMENTS ===\<newline>\<newline>''
             @ fail_mark @ '' Failed: View PDF (Page 1)\<newline>''
             @ ok_mark @ '' Downloaded: filing_document_2_00006245.pdf (Page 1)\<newline>'',
           l_files_created =
             [sample_dir @ ''/00006245_overview.txt'', sample_dir @ ''/00006245_officers.txt'',
              sample_dir @ ''/00006245_psc.txt'', sample_dir @ ''/00006245_filing_history.txt'',
              sample_dir @ ''/00006245_summary.txt''],
           l_summary_text =
             ''=== COMPANY DATA EXTRACTION SUMMARY ===\<newline>\<newline>''
             @ ''Company ID: 00006245\<newline>''
             @ ''Extraction Date: 2024-01-01 12:00:00\<newline>''
             @ ''Method: Hybrid (Companies House API + Multi-Page Web Scraping)\<newline>\<newline>''
             @ ''Files Created: 4 text files\<newline>''
             @ ''PDFs Downloaded: 1\<newline>''
             @ ''Pages Scraped: 1\<newline>'',
           l_zip_path = sample_dir @ ''/company_00006245_data.zip''\<rparr>"
  by code_simp

lemma sample_run_requests:
  "requests (snd (create_zip_file_body sample_world sample_id sample_state)) =
     [Api_get (api_base @ ''/company/00006245''),
      Api_get (api_base @ ''/company/00006245''),
      Api_get (api_base @ ''/company/00006245/officers''),
      Api_get (api_base @ ''/company/00006245/persons-with-significant-control''),
      Api_get (api_base @ ''/company/00006245/filing-history''),
      Web_get (web_base @ ''/company/00006245/filing-history''),
      Web_get (web_base @ ''/company/00006245/filing-history?page=2''),
      Web_get (web_base @ ''/a.pdf''),
      Web_get (web_base @ ''/b.pdf'')]"
  by code_simp

lemma os_path_join_last: "b \<noteq> [] \<Longrightarrow> last (os_path_join a b) = last b"
  unfolding os_path_join_def by auto

section \<open>Connectivity pre-check\<close>

text \<open>
  Claim C2. The connectivity pre-check succeeds exactly when the company lookup is answered
  with status 200 or 404; an exception of the request and every other status (an
  authentication failure among them) make it fail. When it fails, \<open>create_zip_file\<close> returns
  no archive path and the count 0, and the lookup is the only request it has issued.
\<close>

theorem connectivity_precheck:
  assumes "(if temp_dir st = None \<or> temp_dir st = Some []
            then create_temp_directory w cid st else Some st) = Some st1"
  shows "(fst (test_api_connection (w_net w) cid (requests st1)) \<longleftrightarrow>
           (\<exists>resp. w_net w (requests st1) (Api_get (api_base @ ''/company/'' @ cid)) = Some resp
              \<and> (status_code resp = 200 \<or> status_code resp = 404)))
       \<and> (\<not> fst (test_api_connection (w_net w) cid (requests st1)) \<longrightarrow>
            create_zip_file w cid st =
              (Some (None, 0),
               st1\<lparr>requests := requests st @ [Api_get (api_base @ ''/company/'' @ cid)]\<rparr>))"
proof -
  have a: "fst (test_api_connection (w_net w) cid (requests st1)) \<longleftrightarrow>
           (\<exists>resp. w_net w (requests st1) (Api_get (api_base @ ''/company/'' @ cid)) = Some resp
              \<and> (status_code resp = 200 \<or> status_code resp = 404))"
    by (simp add: test_api_connection_def send_def split: option.splits)
  from assms have r: "requests st1 = requests st"
    by (auto simp: create_temp_directory_def split: if_splits)
  have b: "create_zip_file w cid st =
              (Some (None, 0), st1\<lparr>requests := requests st @ [Api_get (api_base @ ''/company/'' @ cid)]\<rparr>)"
    if "\<not> fst (test_api_connection (w_net w) cid (requests st1))"
    using body_No_connection[OF assms that] r by (simp add: create_zip_file_def)
  from a b show ?thesis by blast
qed

theorem connectivity_precheck_witness:
  "\<not> fst (test_api_connection (w_net unauthorized_world) sample_id
            (requests (sample_state\<lparr>temp_dir := Some sample_dir\<rparr>)))
   \<and> create_zip_file unauthorized_world sample_id sample_state =
       (Some (None, 0),
        sample_state\<lparr>temp_dir := Some sample_dir,
                     requests := [Api_get (api_base @ ''/company/'' @ sample_id)]\<rparr>)"
proof -
  have h: "(if temp_dir sample_state = None \<or> temp_dir sample_state = Some []
            then create_temp_directory unauthorized_world sample_id sample_state
            else Some sample_state) = Some (sample_state\<lparr>temp_dir := Some sample_dir\<rparr>)"
    by (simp add: sample_state_def create_temp_directory_def unauthorized_world_def
        sample_world_def sample_id_def sample_dir_def)
  have n: "\<not> fst (test_api_connection (w_net unauthorized_world) sample_id
            (requests (sample_state\<lparr>temp_dir := Some sample_dir\<rparr>)))"
    by (simp add: test_api_connection_def send_def unauthorized_world_def)
  from connectivity_precheck[OF h] n show ?thesis
    by (simp add: sample_state_def)
qed

section \<open>The run summary\<close>

text \<open>
  Claim C10. Whenever an archive is produced, the summary says \<open>Files Created: 4 text files\<close>:
  the summary file is not counted in its own text, although five text files are written, the
  archive holds them and the documents, and the returned count is five plus the documents.
\<close>

theorem summary_counts_four_text_files:
  assumes "create_zip_file_body w cid st = (Done l, st')"
  shows "l_summary_text l =
           ''=== COMPANY DATA EXTRACTION SUMMARY ===\<newline>\<newline>''
           @ ''Company ID: '' @ cid @ ''\<newline>''
           @ ''Extraction Date: '' @ w_clock w @ ''\<newline>''
           @ ''Method: Hybrid (Companies House API + Multi-Page Web Scraping)\<newline>\<newline>''
           @ ''Files Created: 4 text files\<newline>''
           @ ''PDFs Downloaded: '' @ str_nat (length (l_pdf_files l)) @ ''\<newline>''
           @ ''Pages Scraped: ''
           @ str_nat (if l_pdf_links l \<noteq> [] then max_list (map page (l_pdf_links l)) else 1)
           @ ''\<newline>''
       \<and> length (l_files_created l) = 5
       \<and> (\<exists>entries. files st' (l_zip_path l) = Some (Zip entries)
             \<and> length entries = 5 + length (l_pdf_files l)
             \<and> snd (entries ! 4) = Bytes (l_summary_text l))
       \<and> create_zip_file w cid st = (Some (Some (l_zip_path l), 5 + length (l_pdf_files l)), st')"
proof -
  from assms obtain fc dir pf pl st7 st8 cp od pd fh links where
    ws: "write_sections w
       [(os_path_join dir (cid @ ''_overview.txt''), format_company_profile cp),
        (os_path_join dir (cid @ ''_officers.txt''), format_officers od),
        (os_path_join dir (cid @ ''_psc.txt''), format_psc pd),
        (os_path_join dir (cid @ ''_filing_history.txt''),
           map_option (\<lambda>t. t @ pl) (format_filing_history fh))] [] st7 = (Some fc, st8)"
    and wz: "write_zip w (os_path_join dir (''company_'' @ cid @ ''_data.zip''))
        ((fc @ [os_path_join dir (cid @ ''_summary.txt'')]) @ pf)
        (st8\<lparr>files := (files st8)(os_path_join dir (cid @ ''_summary.txt'')
                 \<mapsto> Bytes (summary_text_of w cid fc pf links))\<rparr>) = (True, st')"
    and l: "l = \<lparr>l_pdf_links = links, l_pdf_files = pf, l_pdf_log = pl,
          l_files_created = fc @ [os_path_join dir (cid @ ''_summary.txt'')],
          l_summary_text = summary_text_of w cid fc pf links,
          l_zip_path = os_path_join dir (''company_'' @ cid @ ''_data.zip'')\<rparr>"
    by (rule body_Done)
  let ?sp = "os_path_join dir (cid @ ''_summary.txt'')"
  let ?zp = "os_path_join dir (''company_'' @ cid @ ''_data.zip'')"
  from write_sections_created[OF ws] have len: "length fc = 4" by simp
  have four: "str_nat 4 = ''4''" by code_simp
  from len l four have t: "l_summary_text l =
           ''=== COMPANY DATA EXTRACTION SUMMARY ===\<newline>\<newline>''
           @ ''Company ID: '' @ cid @ ''\<newline>''
           @ ''Extraction Date: '' @ w_clock w @ ''\<newline>''
           @ ''Method: Hybrid (Companies House API + Multi-Page Web Scraping)\<newline>\<newline>''
           @ ''Files Created: 4 text files\<newline>''
           @ ''PDFs Downloaded: '' @ str_nat (length (l_pdf_files l)) @ ''\<newline>''
           @ ''Pages Scraped: ''
           @ str_nat (if l_pdf_links l \<noteq> [] then max_list (map page (l_pdf_links l)) else 1)
           @ ''\<newline>''"
    by (simp add: summary_text_of_def)
  from len l have five: "length (l_files_created l) = 5" by simp
  have "last ?sp = CHR ''t''" "last ?zp = CHR ''p''"
    by (simp_all add: os_path_join_last)
  then have ne: "?sp \<noteq> ?zp" by auto
  from write_zip_True[OF wz] have
    fz: "files st' ?zp = Some (Zip (map (\<lambda>p. (os_path_basename p,
           the ((((files st8)(?sp \<mapsto> Bytes (summary_text_of w cid fc pf links)))(?zp \<mapsto> Zip [])) p)))
           ((fc @ [?sp]) @ pf)))"
    by simp
  have e: "\<exists>entries. files st' (l_zip_path l) = Some (Zip entries)
             \<and> length entries = 5 + length (l_pdf_files l)
             \<and> snd (entries ! 4) = Bytes (l_summary_text l)"
    using fz len l ne by (simp add: nth_append)
  from len l assms have c: "create_zip_file w cid st =
      (Some (Some (l_zip_path l), 5 + length (l_pdf_files l)), st')"
    by (simp add: create_zip_file_def)
  from t five e c show ?thesis by blast
qed

theorem summary_counts_four_text_files_witness:
  "\<exists>l st'. create_zip_file_body sample_world sample_id sample_state = (Done l, st')
     \<and> l_summary_text l =
           ''=== COMPANY DATA EXTRACTION SUMMARY ===\<newline>\<newline>''
           @ ''Company ID: '' @ sample_id @ ''\<newline>''
           @ ''Extraction Date: '' @ w_clock sample_world @ ''\<newline>''
           @ ''Method: Hybrid (Companies House API + Multi-Page Web Scraping)\<newline>\<newline>''
           @ ''Files Created: 4 text files\<newline>''
           @ ''PDFs Downloaded: '' @ str_nat (length (l_pdf_files l)) @ ''\<newline>''
           @ ''Pages Scraped: ''
           @ str_nat (if l_pdf_links l \<noteq> [] then max_list (map page (l_pdf_links l)) else 1)
           @ ''\<newline>''
     \<and> length (l_files_created l) = 5
     \<and> create_zip_file sample_world sample_id sample_state =
         (Some (Some (l_zip_path l), 5 + length (l_pdf_files l)), st')"
proof -
  obtain l where "fst (create_zip_file_body sample_world sample_id sample_state) = Done l"
    using sample_run_locals by blast
  then have h: "create_zip_file_body sample_world sample_id sample_state =
      (Done l, snd (create_zip_file_body sample_world sample_id sample_state))"
    by (simp add: prod_eq_iff)
  from summary_counts_four_text_files[OF h] h show ?thesis by blast
qed

section \<open>Document Locator: the page scan\<close>

lemma digits_value_snoc:
  "digits_value (s @ [c]) = 10 * digits_value s + ((of_char c :: nat) - 48)"
  by (simp add: digits_value_def)

lemma digits_value_str_nat: "digits_value (str_nat n) = n"
proof (induction n rule: str_nat.induct)
  case (1 n)
  show ?case
  proof (cases "n < 10")
    case True
    then show ?thesis
      by (subst str_nat.simps) (simp add: digits_value_def digit_char_def)
  next
    case False
    have "n mod 10 < 10" by simp
    then have d: "(of_char (digit_char (n mod 10)) :: nat) - 48 = n mod 10"
      by (simp add: digit_char_def)
    from False 1 have "digits_value (str_nat (n div 10)) = n div 10" by simp
    with False d show ?thesis
      by (subst str_nat.simps) (simp add: digits_value_snoc)
  qed
qed

lemma str_nat_inj: "str_nat a = str_nat b \<Longrightarrow> a = b"
  by (metis digits_value_str_nat)

lemma listing_url_inj: "listing_url cid p = listing_url cid q \<Longrightarrow> p = q"
  by (auto simp: listing_url_def split: if_splits dest: str_nat_inj)

lemma listing_requests_step:
  "p < q \<Longrightarrow> listing_requests cid p q = Web_get (listing_url cid p) # listing_requests cid (Suc p) q"
  by (simp add: upt_rec)

text \<open>The scan from page \<open>p\<close> on: which pages it fetches and what it returns.\<close>

lemma scrape_loop_trace:
  "p + d = 20 \<Longrightarrow>
   \<exists>n. p \<le> n \<and> n \<le> 20
     \<and> snd (scrape_loop net cid p acc log) = log @ listing_requests cid p (Suc n)
     \<and> (\<forall>q. p \<le> q \<and> q < n \<longrightarrow>
           (\<exists>r. net (log @ listing_requests cid p q) (Web_get (listing_url cid q)) = Some r
              \<and> status_code r = 200 \<and> page_pdf_links q (anchors r) \<noteq> []
              \<and> has_next_page q (anchors r) = Some True))
     \<and> fst (scrape_loop net cid p acc log) =
         acc @ concat (map (\<lambda>q. case net (log @ listing_requests cid p q) (Web_get (listing_url cid q)) of
                                   None \<Rightarrow> []
                                 | Some r \<Rightarrow> page_pdf_links q (anchors r)) [p..<n])
           @ (case net (log @ listing_requests cid p n) (Web_get (listing_url cid n)) of
                None \<Rightarrow> []
              | Some r \<Rightarrow> if status_code r = 200 then page_pdf_links n (anchors r) else [])"
proof (induction d arbitrary: p acc log)
  case 0
  then have p: "p = 20" by simp
  have stop: "scrape_loop net cid 21 a l = (a, l)" for a l
    by (subst scrape_loop.simps) (simp add: max_pages_def)
  show ?case
    apply (rule exI[of _ p])
    apply (subst (1 2) scrape_loop.simps)
    using p stop
    by (auto simp: max_pages_def Let_def split: option.splits bool.splits)
next
  case (Suc d)
  then have p: "p < 20" by simp
  let ?req = "Web_get (listing_url cid p)"
  show ?case
  proof (cases "\<exists>r. net log ?req = Some r \<and> status_code r = 200
                   \<and> page_pdf_links p (anchors r) \<noteq> [] \<and> has_next_page p (anchors r) = Some True")
    case False
    show ?thesis
      apply (rule exI[of _ p])
      apply (subst (1 2) scrape_loop.simps)
      using p False
      by (auto simp: max_pages_def Let_def split: option.splits bool.splits)
  next
    case True
    then obtain r where r: "net log ?req = Some r" "status_code r = 200"
      "page_pdf_links p (anchors r) \<noteq> []" "has_next_page p (anchors r) = Some True" by blast
    have step: "scrape_loop net cid p acc log =
        scrape_loop net cid (Suc p) (acc @ page_pdf_links p (anchors r)) (log @ [?req])"
      apply (subst scrape_loop.simps)
      using p r by (simp add: max_pages_def Let_def)
    from Suc.prems have "Suc p + d = 20" by simp
    from Suc.IH[OF this, of "acc @ page_pdf_links p (anchors r)" "log @ [?req]"]
    obtain n where n: "Suc p \<le> n" "n \<le> 20"
      "snd (scrape_loop net cid (Suc p) (acc @ page_pdf_links p (anchors r)) (log @ [?req]))
         = (log @ [?req]) @ listing_requests cid (Suc p) (Suc n)"
      "\<forall>q. Suc p \<le> q \<and> q < n \<longrightarrow>
           (\<exists>r'. net ((log @ [?req]) @ listing_requests cid (Suc p) q) (Web_get (listing_url cid q)) = Some r'
              \<and> status_code r' = 200 \<and> page_pdf_links q (anchors r') \<noteq> []
              \<and> has_next_page q (anchors r') = Some True)"
      "fst (scrape_loop net cid (Suc p) (acc @ page_pdf_links p (anchors r)) (log @ [?req])) =
         (acc @ page_pdf_links p (anchors r))
           @ concat (map (\<lambda>q. case net ((log @ [?req]) @ listing_requests cid (Suc p) q) (Web_get (listing_url cid q)) of
                                   None \<Rightarrow> []
                                 | Some r \<Rightarrow> page_pdf_links q (anchors r)) [Suc p..<n])
           @ (case net ((log @ [?req]) @ listing_requests cid (Suc p) n) (Web_get (listing_url cid n)) of
                None \<Rightarrow> []
              | Some r \<Rightarrow> if status_code r = 200 then page_pdf_links n (anchors r) else [])"
      by blast
    have shift: "(log @ [?req]) @ listing_requests cid (Suc p) q = log @ listing_requests cid p q"
      if "p < q" for q
      using that by (simp add: upt_rec[of p q])
    have a: "snd (scrape_loop net cid p acc log) = log @ listing_requests cid p (Suc n)"
      using step n(1,3) shift[of "Suc n"] by simp
    have b: "\<exists>r'. net (log @ listing_requests cid p q) (Web_get (listing_url cid q)) = Some r'
              \<and> status_code r' = 200 \<and> page_pdf_links q (anchors r') \<noteq> []
              \<and> has_next_page q (anchors r') = Some True" if q: "p \<le> q \<and> q < n" for q
    proof (cases "q = p")
      case True
      with r show ?thesis by simp
    next
      case False
      with q have q': "Suc p \<le> q \<and> q < n" and pq: "p < q" by simp_all
      from n(4) q' have
        "\<exists>r'. net ((log @ [?req]) @ listing_requests cid (Suc p) q) (Web_get (listing_url cid q)) = Some r'
              \<and> status_code r' = 200 \<and> page_pdf_links q (anchors r') \<noteq> []
              \<and> has_next_page q (anchors r') = Some True"
        by blast
      then show ?thesis unfolding shift[OF pq] .
    qed
    have upt: "[p..<n] = p # [Suc p..<n]" using n(1) by (simp add: upt_rec)
    have mapeq: "map (\<lambda>q. case net ((log @ [?req]) @ listing_requests cid (Suc p) q) (Web_get (listing_url cid q)) of
                                   None \<Rightarrow> []
                                 | Some r \<Rightarrow> page_pdf_links q (anchors r)) [Suc p..<n]
        = map (\<lambda>q. case net (log @ listing_requests cid p q) (Web_get (listing_url cid q)) of
                                   None \<Rightarrow> []
                                 | Some r \<Rightarrow> page_pdf_links q (anchors r)) [Suc p..<n]"
    proof (rule map_cong)
      fix x assume "x \<in> set [Suc p..<n]"
      then have "p < x" by simp
      from shift[OF this] show
        "(case net ((log @ [?req]) @ listing_requests cid (Suc p) x) (Web_get (listing_url cid x)) of
            None \<Rightarrow> [] | Some r \<Rightarrow> page_pdf_links x (anchors r))
         = (case net (log @ listing_requests cid p x) (Web_get (listing_url cid x)) of
            None \<Rightarrow> [] | Some r \<Rightarrow> page_pdf_links x (anchors r))"
        by (simp only:)
    qed simp
    have c: "fst (scrape_loop net cid p acc log) =
         acc @ concat (map (\<lambda>q. case net (log @ listing_requests cid p q) (Web_get (listing_url cid q)) of
                                   None \<Rightarrow> []
                                 | Some r \<Rightarrow> page_pdf_links q (anchors r)) [p..<n])
           @ (case net (log @ listing_requests cid p n) (Web_get (listing_url cid n)) of
                None \<Rightarrow> []
              | Some r \<Rightarrow> if status_code r = 200 then page_pdf_links n (anchors r) else [])"
      using step n(1,5) shift[of n] r(1) unfolding mapeq upt by simp
    from n(1,2) a b c show ?thesis
      by (intro exI[of _ n]) simp
  qed
qed

lemma empty_page_step:
  assumes "page_num \<le> max_pages" "net log (Web_get (listing_url cid page_num)) = Some resp"
    "status_code resp = 200" "page_pdf_links page_num (anchors resp) = []"
  shows "scrape_loop net cid page_num all_pdf_links log =
           (all_pdf_links, log @ [Web_get (listing_url cid page_num)])"
  using assms by (subst scrape_loop.simps) (simp add: Let_def)

text \<open>
  Claim C5. In every scan, a listing page that was fetched and yields no candidate link is
  the last page fetched, and the scan returns what the pages before it yielded, whatever
  links to further pages that page carries.
\<close>

theorem empty_page_ends_scan:
  assumes scan: "get_pdf_links_scraping net cid log0 = (links, log')"
    and fetched: "1 \<le> k \<and> k \<le> max_pages \<and> (\<exists>rest. log' = log0 @ listing_requests cid 1 (Suc k) @ rest)"
    and page: "net (log0 @ listing_requests cid 1 k) (Web_get (listing_url cid k)) = Some resp"
      "status_code resp = 200" "page_pdf_links k (anchors resp) = []"
  shows "log' = log0 @ listing_requests cid 1 (Suc k)
       \<and> links = concat (map (\<lambda>q. case net (log0 @ listing_requests cid 1 q) (Web_get (listing_url cid q)) of
                                      None \<Rightarrow> []
                                    | Some r \<Rightarrow> page_pdf_links q (anchors r)) [1..<k])"
proof -
  have "(1::nat) + 19 = 20" by simp
  from scrape_loop_trace[OF this, of net cid "[]" log0] scan
  obtain n where n: "1 \<le> n" "n \<le> 20" "log' = log0 @ listing_requests cid 1 (Suc n)"
    "\<forall>q. 1 \<le> q \<and> q < n \<longrightarrow>
           (\<exists>r. net (log0 @ listing_requests cid 1 q) (Web_get (listing_url cid q)) = Some r
              \<and> status_code r = 200 \<and> page_pdf_links q (anchors r) \<noteq> []
              \<and> has_next_page q (anchors r) = Some True)"
    "links = concat (map (\<lambda>q. case net (log0 @ listing_requests cid 1 q) (Web_get (listing_url cid q)) of
                                   None \<Rightarrow> []
                                 | Some r \<Rightarrow> page_pdf_links q (anchors r)) [1..<n])
           @ (case net (log0 @ listing_requests cid 1 n) (Web_get (listing_url cid n)) of
                None \<Rightarrow> []
              | Some r \<Rightarrow> if status_code r = 200 then page_pdf_links n (anchors r) else [])"
    by (auto simp: get_pdf_links_scraping_def)
  from fetched obtain rest where rest: "log' = log0 @ listing_requests cid 1 (Suc k) @ rest" by blast
  with n(3) have "length (listing_requests cid 1 (Suc n)) = length (listing_requests cid 1 (Suc k) @ rest)"
    by simp
  then have kn: "k \<le> n" by (simp only: length_map length_upt length_append)
  have "k = n"
  proof (rule ccontr)
    assume "k \<noteq> n"
    with kn fetched have "1 \<le> k \<and> k < n" by simp
    with n(4) page show False by auto
  qed
  with n(3,5) page show ?thesis by simp
qed

lemma page_pdf_links_page: "x \<in> set (page_pdf_links q as) \<Longrightarrow> page x = q"
  by (induction q as rule: page_pdf_links.induct) (auto simp: Let_def split: if_splits)

lemma single_page_tag:
  assumes "length (page_pdf_links q as) = 1"
  shows "map page (page_pdf_links q as) = [q]"
proof -
  from assms obtain x where x: "page_pdf_links q as = [x]"
    by (cases "page_pdf_links q as") auto
  then have "x \<in> set (page_pdf_links q as)" by simp
  from page_pdf_links_page[OF this] x show ?thesis by simp
qed

lemma scrape_loop_all_pages:
  "p + d = 21 \<Longrightarrow>
   (\<forall>q. p \<le> q \<and> q \<le> 20 \<longrightarrow>
      (\<exists>r. net (log @ listing_requests cid p q) (Web_get (listing_url cid q)) = Some r
         \<and> status_code r = 200 \<and> length (page_pdf_links q (anchors r)) = 1
         \<and> has_next_page q (anchors r) = Some True)) \<Longrightarrow>
   snd (scrape_loop net cid p acc log) = log @ listing_requests cid p 21
   \<and> map page (fst (scrape_loop net cid p acc log)) = map page acc @ [p..<21]"
proof (induction d arbitrary: p acc log)
  case 0
  then show ?case by (subst (1 2) scrape_loop.simps) (simp add: max_pages_def)
next
  case (Suc d)
  let ?req = "Web_get (listing_url cid p)"
  from Suc.prems(1) have p: "p \<le> 20" by simp
  with Suc.prems(2) have "\<exists>r. net (log @ listing_requests cid p p) ?req = Some r
         \<and> status_code r = 200 \<and> length (page_pdf_links p (anchors r)) = 1
         \<and> has_next_page p (anchors r) = Some True"
    by blast
  then obtain r where r: "net log ?req = Some r" "status_code r = 200"
    "length (page_pdf_links p (anchors r)) = 1" "has_next_page p (anchors r) = Some True"
    by auto
  from r(3) have ne: "page_pdf_links p (anchors r) \<noteq> []" by auto
  have step: "scrape_loop net cid p acc log =
      scrape_loop net cid (Suc p) (acc @ page_pdf_links p (anchors r)) (log @ [?req])"
    apply (subst scrape_loop.simps)
    using p r ne by (simp add: max_pages_def Let_def)
  have shift: "(log @ [?req]) @ listing_requests cid (Suc p) q = log @ listing_requests cid p q"
    if "p < q" for q
    using that by (simp add: upt_rec[of p q])
  have H': "\<forall>q. Suc p \<le> q \<and> q \<le> 20 \<longrightarrow>
      (\<exists>r. net ((log @ [?req]) @ listing_requests cid (Suc p) q) (Web_get (listing_url cid q)) = Some r
         \<and> status_code r = 200 \<and> length (page_pdf_links q (anchors r)) = 1
         \<and> has_next_page q (anchors r) = Some True)"
  proof (intro allI impI)
    fix q assume q: "Suc p \<le> q \<and> q \<le> 20"
    then have pq: "p < q" by simp
    from Suc.prems(2) q have "\<exists>r. net (log @ listing_requests cid p q) (Web_get (listing_url cid q)) = Some r
         \<and> status_code r = 200 \<and> length (page_pdf_links q (anchors r)) = 1
         \<and> has_next_page q (anchors r) = Some True" by simp
    then show "\<exists>r. net ((log @ [?req]) @ listing_requests cid (Suc p) q) (Web_get (listing_url cid q)) = Some r
         \<and> status_code r = 200 \<and> length (page_pdf_links q (anchors r)) = 1
         \<and> has_next_page q (anchors r) = Some True"
      unfolding shift[OF pq] .
  qed
  from Suc.prems(1) have "Suc p + d = 21" by simp
  from Suc.IH[OF this H', of "acc @ page_pdf_links p (anchors r)"]
  have ih: "snd (scrape_loop net cid (Suc p) (acc @ page_pdf_links p (anchors r)) (log @ [?req]))
       = (log @ [?req]) @ listing_requests cid (Suc p) 21"
    "map page (fst (scrape_loop net cid (Suc p) (acc @ page_pdf_links p (anchors r)) (log @ [?req])))
       = map page (acc @ page_pdf_links p (anchors r)) @ [Suc p..<21]"
    by simp_all
  have upt: "[p..<21] = p # [Suc p..<21]" using p by (simp add: upt_rec)
  from p have "p < 21" by simp
  from ih(1) shift[OF this] step have a: "snd (scrape_loop net cid p acc log) = log @ listing_requests cid p 21"
    by (simp only:)
  from ih(2) step single_page_tag[OF r(3)] upt
  have b: "map page (fst (scrape_loop net cid p acc log)) = map page acc @ [p..<21]"
    by simp
  from a b show ?case by blast
qed

text \<open>
  Claim C4. When each of the pages 1 to 20 answers with exactly one candidate link and a
  continuation signal, the scan returns 20 links, one per page, after fetching the pages 1 to
  20 and nothing else: page 21 is not requested.
\<close>

theorem page_cap:
  assumes "\<forall>q. 1 \<le> q \<and> q \<le> 20 \<longrightarrow>
      (\<exists>r. net (log0 @ listing_requests cid 1 q) (Web_get (listing_url cid q)) = Some r
         \<and> status_code r = 200 \<and> length (page_pdf_links q (anchors r)) = 1
         \<and> has_next_page q (anchors r) = Some True)"
  shows "length (fst (get_pdf_links_scraping net cid log0)) = 20
       \<and> map page (fst (get_pdf_links_scraping net cid log0)) = [1..<21]
       \<and> snd (get_pdf_links_scraping net cid log0) = log0 @ listing_requests cid 1 21
       \<and> Web_get (listing_url cid 21) \<notin> set (listing_requests cid 1 21)"
proof -
  have "(1::nat) + 20 = 21" by simp
  from scrape_loop_all_pages[OF this assms, of "[]"]
  have a: "snd (get_pdf_links_scraping net cid log0) = log0 @ listing_requests cid 1 21"
    and b: "map page (fst (get_pdf_links_scraping net cid log0)) = [1..<21]"
    by (simp_all add: get_pdf_links_scraping_def)
  from b have "length (map page (fst (get_pdf_links_scraping net cid log0))) = length [1..<21::nat]"
    by (simp only:)
  then have c: "length (fst (get_pdf_links_scraping net cid log0)) = 20" by simp
  have d: "Web_get (listing_url cid 21) \<notin> set (listing_requests cid 1 21)"
    by (auto dest: listing_url_inj)
  from a b c d show ?thesis by blast
qed

lemma endless_page_links:
  "page_pdf_links q [(''/doc.pdf'', ''View PDF''), (''/more'', ''Next'')] =
     [\<lparr>url = web_base @ ''/doc.pdf'', description = ''View PDF'', page = q\<rparr>]"
proof -
  have "py_strip ''View PDF'' = ''View PDF''" "py_strip ''Next'' = ''Next''"
    "py_lower ''View PDF'' = ''view pdf''" "py_lower ''Next'' = ''next''"
    "py_lower ''/doc.pdf'' = ''/doc.pdf''" "py_lower ''/more'' = ''/more''"
    by code_simp+
  then show ?thesis by (simp add: web_base_def)
qed

lemma endless_next:
  "has_next_page q [(''/doc.pdf'', ''View PDF''), (''/more'', ''Next'')] = Some True"
proof -
  have "py_strip ''View PDF'' = ''View PDF''" "py_strip ''Next'' = ''Next''"
    "py_lower ''View PDF'' = ''view pdf''" "py_lower ''Next'' = ''next''"
    "py_isdigit ''view pdf'' = False"
    by code_simp+
  then show ?thesis by (simp add: has_next_page_def)
qed

theorem page_cap_witness:
  "length (fst (get_pdf_links_scraping endless_net sample_id [])) = 20
   \<and> snd (get_pdf_links_scraping endless_net sample_id []) = listing_requests sample_id 1 21"
proof -
  have h: "\<forall>q. 1 \<le> q \<and> q \<le> 20 \<longrightarrow>
      (\<exists>r. endless_net ([] @ listing_requests sample_id 1 q) (Web_get (listing_url sample_id q)) = Some r
         \<and> status_code r = 200 \<and> length (page_pdf_links q (anchors r)) = 1
         \<and> has_next_page q (anchors r) = Some True)"
    by (simp add: endless_net_def endless_page_links endless_next del: page_pdf_links.simps)
  from page_cap[OF h] show ?thesis by simp
qed

theorem empty_page_ends_scan_witness:
  "get_pdf_links_scraping sample_net sample_id [] =
     ([\<lparr>url = web_base @ ''/a.pdf'', description = ''View PDF'', page = 1\<rparr>,
       \<lparr>url = web_base @ ''/b.pdf'', description = ''View PDF'', page = 1\<rparr>],
      [Web_get (listing_url sample_id 1), Web_get (listing_url sample_id 2)])
   \<and> has_next_page 2 [(''?page=3'', ''Next'')] = Some True
   \<and> page_pdf_links 2 [(''?page=3'', ''Next'')] = []"
proof -
  let ?links = "[\<lparr>url = web_base @ ''/a.pdf'', description = ''View PDF'', page = 1\<rparr>,
       \<lparr>url = web_base @ ''/b.pdf'', description = ''View PDF'', page = 1\<rparr>]"
  let ?resp = "\<lparr>status_code = 200, json_body = None, anchors = [(''?page=3'', ''Next'')], content = []\<rparr>"
  have scan: "get_pdf_links_scraping sample_net sample_id [] =
     (?links, [Web_get (listing_url sample_id 1), Web_get (listing_url sample_id 2)])"
    by code_simp
  have lr: "listing_requests sample_id 1 (Suc 2) = [Web_get (listing_url sample_id 1), Web_get (listing_url sample_id 2)]"
    "listing_requests sample_id 1 2 = [Web_get (listing_url sample_id 1)]"
    by code_simp+
  have fetched: "1 \<le> (2::nat) \<and> 2 \<le> max_pages \<and> (\<exists>rest.
      [Web_get (listing_url sample_id 1), Web_get (listing_url sample_id 2)] = [] @ listing_requests sample_id 1 (Suc 2) @ rest)"
    unfolding lr by (simp add: max_pages_def)
  have page: "sample_net ([] @ listing_requests sample_id 1 2) (Web_get (listing_url sample_id 2)) = Some ?resp"
    by code_simp
  have e: "status_code ?resp = 200" "page_pdf_links 2 (anchors ?resp) = []"
    by code_simp+
  have nx: "has_next_page 2 [(''?page=3'', ''Next'')] = Some True" by code_simp
  from empty_page_ends_scan[OF scan fetched page e] scan nx e(2) show ?thesis by simp
qed

section \<open>Rendering the filing history\<close>

lemma those_length: "those xs = Some ys \<Longrightarrow> length ys = length xs \<and> (\<forall>k<length xs. xs ! k = Some (ys ! k))"
proof (induction xs arbitrary: ys)
  case Nil
  then show ?case by simp
next
  case (Cons x xs)
  from Cons.prems obtain y ys' where y: "x = Some y" "those xs = Some ys'" "ys = y # ys'"
    by (auto split: option.splits)
  from Cons.IH[OF y(2)] y show ?case
    by (auto simp: nth_Cons split: nat.splits)
qed

lemma those_None: "those xs = None \<longleftrightarrow> (\<exists>k<length xs. xs ! k = None)"
proof -
  have "those xs = None \<longleftrightarrow> None \<in> set xs"
    by (induction xs) (auto split: option.splits)
  then show ?thesis by (metis in_set_conv_nth)
qed

text \<open>The enumerate loop renders the elements one by one, numbered from \<open>i\<close>.\<close>

lemma entries_loop_those:
  "entries_loop entry t i xs =
     map_option (\<lambda>blocks. t @ concat blocks)
       (those (map (\<lambda>k. entry (i + k) (xs ! k)) [0..<length xs]))"
proof (induction xs arbitrary: t i)
  case Nil
  then show ?case by simp
next
  case (Cons x xs)
  have upt: "[0..<length (x # xs)] = 0 # map Suc [0..<length xs]"
    by (simp add: upt_conv_Cons map_Suc_upt del: upt_Suc)
  have m: "map (\<lambda>k. entry (i + k) ((x # xs) ! k)) [0..<length (x # xs)]
      = entry i x # map (\<lambda>k. entry (i + 1 + k) (xs ! k)) [0..<length xs]"
    unfolding upt by (simp add: comp_def)
  show ?case
  proof (cases "entry i x")
    case None
    then show ?thesis unfolding m by simp
  next
    case (Some e)
    with Cons.IH[of "t @ e" "i + 1"] show ?thesis
      unfolding m by (simp add: option.map_comp comp_def split: option.splits)
  qed
qed

lemma filing_entry_label:
  "filing_entry i f = Some e \<Longrightarrow> \<exists>rest. e = ''Filing '' @ str_nat i @ '':\<newline>'' @ rest"
  unfolding filing_entry_def
  by (auto split: Option.bind_splits)

text \<open>
  Claim C6. For a filing-history record whose item list has more than 15 items, the rendered
  text consists of the header, the line \<open>Total Filings:\<close> with the record's own total
  count, and exactly 15 entries: the renderings of the first 15 items in their order,
  numbered 1 to 15. The rendering raises only when one of these 15 entries does.
\<close>

theorem filing_history_cap:
  assumes items: "map_of kvs ''items'' = Some (JList items)" and long: "15 < length items"
    and total: "map_of kvs ''total_count'' = Some total_count"
  shows "(format_filing_history (JDict kvs) = None \<longleftrightarrow>
            (\<exists>k<15. filing_entry (k + 1) (items ! k) = None))
       \<and> (\<forall>t. format_filing_history (JDict kvs) = Some t \<longrightarrow>
            (\<exists>blocks. length blocks = 15
               \<and> t = ''=== FILING HISTORY ===\<newline>\<newline>''
                     @ ''Total Filings: '' @ py_str total_count @ ''\<newline>\<newline>'' @ concat blocks
               \<and> (\<forall>k<15. filing_entry (k + 1) (items ! k) = Some (blocks ! k)
                      \<and> (\<exists>rest. blocks ! k = ''Filing '' @ str_nat (k + 1) @ '':\<newline>'' @ rest))))"
proof -
  let ?head = "''=== FILING HISTORY ===\<newline>\<newline>'' @ ''Total Filings: '' @ py_str total_count @ ''\<newline>\<newline>''"
  let ?rs = "map (\<lambda>k. filing_entry (1 + k) (take 15 items ! k)) [0..<15]"
  from items have ne: "kvs \<noteq> []" by auto
  from long have len: "length (take 15 items) = 15" by simp
  from ne items total len have f: "format_filing_history (JDict kvs) =
      map_option (\<lambda>blocks. ?head @ concat blocks) (those ?rs)"
    by (simp add: format_filing_history_def entries_loop_those del: upt_Suc)
  have rs: "?rs ! k = filing_entry (k + 1) (items ! k)" if "k < 15" for k
    using that by (simp del: upt_Suc)
  have lrs: "length ?rs = 15" by simp
  have a: "format_filing_history (JDict kvs) = None \<longleftrightarrow>
            (\<exists>k<15. filing_entry (k + 1) (items ! k) = None)"
    unfolding f using rs lrs by (simp only: option.map_disc_iff those_None) metis
  have b: "\<exists>blocks. length blocks = 15
               \<and> t = ?head @ concat blocks
               \<and> (\<forall>k<15. filing_entry (k + 1) (items ! k) = Some (blocks ! k)
                      \<and> (\<exists>rest. blocks ! k = ''Filing '' @ str_nat (k + 1) @ '':\<newline>'' @ rest))"
    if t: "format_filing_history (JDict kvs) = Some t" for t
  proof -
    from t f obtain blocks where bl: "those ?rs = Some blocks" "t = ?head @ concat blocks"
      by auto
    from those_length[OF bl(1)] lrs have l: "length blocks = 15"
      and n: "\<forall>k<15. ?rs ! k = Some (blocks ! k)" by simp_all
    have "filing_entry (k + 1) (items ! k) = Some (blocks ! k)
          \<and> (\<exists>rest. blocks ! k = ''Filing '' @ str_nat (k + 1) @ '':\<newline>'' @ rest)" if k: "k < 15" for k
    proof -
      from n k rs[OF k] have e: "filing_entry (k + 1) (items ! k) = Some (blocks ! k)" by simp
      from filing_entry_label[OF e] e show ?thesis by blast
    qed
    with l bl(2) show ?thesis by blast
  qed
  from a b show ?thesis by simp
qed

theorem filing_history_cap_witness:
  "\<exists>t blocks. format_filing_history long_history = Some t \<and> length blocks = 15
     \<and> t = ''=== FILING HISTORY ===\<newline>\<newline>'' @ ''Total Filings: 40\<newline>\<newline>'' @ concat blocks"
proof -
  have i: "map_of [(''total_count'', JInt 40),
            (''items'', JList (replicate 16 (JDict [(''date'', JStr ''2020-01-01'')])))] ''items''
      = Some (JList (replicate 16 (JDict [(''date'', JStr ''2020-01-01'')])))"
    by simp
  have l: "15 < length (replicate 16 (JDict [(''date'', JStr ''2020-01-01'')]))" by simp
  have t: "map_of [(''total_count'', JInt 40),
            (''items'', JList (replicate 16 (JDict [(''date'', JStr ''2020-01-01'')])))] ''total_count''
      = Some (JInt 40)"
    by simp
  have s: "py_str (JInt 40) = ''40''" by code_simp
  have "format_filing_history long_history \<noteq> None" by code_simp
  then obtain t where "format_filing_history long_history = Some t" by blast
  with filing_history_cap[OF i l t] s show ?thesis
    unfolding long_history_def by fastforce
qed

section \<open>Re-entry into a completed session\<close>

text \<open>
  Claim C1. A run of \<open>main\<close> on a session that is already complete issues no request and
  leaves the files alone, whatever is pressed. On an authorised session, unless the logout
  button of the page header is pressed, it offers the stored archive bytes and shows the
  stored file count; with nothing pressed it leaves the session as it is.
\<close>

theorem complete_session_reentry:
  assumes "extraction_in_progress s" and "extraction_complete s"
  shows "o_state (main w ui s st) = st
       \<and> (password_correct s = Some True \<and> \<not> logout_button ui \<longrightarrow>
            o_shown (main w ui s st) =
              [Success (ok_mark @ '' Successfully extracted company ''
                 @ py_str (case selected_company s of None \<Rightarrow> JStr [] | Some c \<Rightarrow> c) @ ''!''),
               Info (''Package contains '' @ str_nat (file_count s) @ '' files''),
               Download_button (zip_data s)
                 (''company_'' @ py_str (case selected_company s of None \<Rightarrow> JStr [] | Some c \<Rightarrow> c)
                    @ ''_data.zip'')])
       \<and> (password_correct s = Some True \<and> \<not> logout_button ui \<and> \<not> start_again_button ui
            \<and> \<not> logout_button_done ui \<longrightarrow>
            o_session (main w ui s st) = s \<and> o_ending (main w ui s st) = Returned)"
  using assms
  by (simp add: main_def check_password_def extraction_branch_def Let_def)

theorem complete_session_reentry_witness:
  "o_state (main sample_world no_clicks complete_session sample_state) = sample_state
   \<and> o_session (main sample_world no_clicks complete_session sample_state) = complete_session
   \<and> o_shown (main sample_world no_clicks complete_session sample_state) =
       [Success (ok_mark @ '' Successfully extracted company 00006245!''),
        Info ''Package contains 5 files'',
        Download_button (Some (Zip [(''a.txt'', Bytes ''x'')])) ''company_00006245_data.zip'']"
proof -
  have h: "extraction_in_progress complete_session" "extraction_complete complete_session"
    by (simp_all add: complete_session_def)
  have p: "password_correct complete_session = Some True \<and> \<not> logout_button no_clicks
      \<and> \<not> start_again_button no_clicks \<and> \<not> logout_button_done no_clicks"
    by (simp add: complete_session_def no_clicks_def)
  have v: "py_str (case selected_company complete_session of None \<Rightarrow> JStr [] | Some c \<Rightarrow> c) = ''00006245''"
    "str_nat (file_count complete_session) = ''5''"
    "zip_data complete_session = Some (Zip [(''a.txt'', Bytes ''x'')])"
    by code_simp+
  from complete_session_reentry[OF h, of sample_world no_clicks sample_state] p v
  show ?thesis by simp
qed

section \<open>Downloads and the archive\<close>

lemma download_pdf_fst:
  "fst (download_pdf w info fn st) = download_succeeds w (requests st) info fn"
  by (simp add: download_succeeds_def download_pdf_def send_def split: option.splits)

lemma download_pdf_snd:
  "requests (snd (download_pdf w info fn st)) = requests st @ [Web_get (url info)]
   \<and> temp_dir (snd (download_pdf w info fn st)) = temp_dir st
   \<and> files (snd (download_pdf w info fn st)) =
       (if download_succeeds w (requests st) info fn
        then (files st)(fn \<mapsto> Bytes (content (the (w_net w (requests st) (Web_get (url info))))))
        else files st)"
  by (simp add: download_succeeds_def download_pdf_def send_def split: option.splits)

lemma pdf_path_inj: "pdf_path dir cid a = pdf_path dir cid b \<Longrightarrow> a = b"
proof -
  assume eq: "pdf_path dir cid a = pdf_path dir cid b"
  have ns: "\<not> py_startswith (pdf_filename cid k) ''/''" for k
    by (simp add: pdf_filename_def)
  from eq ns have "pdf_filename cid a = pdf_filename cid b"
    by (simp add: os_path_join_def split: if_splits)
  then have "str_nat (a + 1) @ (''_'' @ cid @ ''.pdf'') = str_nat (b + 1) @ (''_'' @ cid @ ''.pdf'')"
    by (simp add: pdf_filename_def)
  then have "str_nat (a + 1) = str_nat (b + 1)" by (simp only: append_same_eq)
  from str_nat_inj[OF this] show "a = b" by simp
qed

text \<open>
  The download loop, started at index \<open>i\<close> of the list \<open>all\<close> after the requests \<open>L\<close> and those
  for the links before \<open>i\<close>.
\<close>

lemma download_loop_char:
  "links = drop i all \<Longrightarrow> requests st = L @ download_requests (take i all) \<Longrightarrow>
   download_loop w cid dir i links pf pl st = (pf', pl', st') \<Longrightarrow>
   pf' = pf @ map (pdf_path dir cid)
              (filter (\<lambda>k. download_succeeds w (L @ download_requests (take k all)) (all ! k) (pdf_path dir cid k))
                 [i..<length all])
   \<and> pl' = pl @ concat (map (\<lambda>k.
              if download_succeeds w (L @ download_requests (take k all)) (all ! k) (pdf_path dir cid k)
              then downloaded_line (pdf_filename cid k) (all ! k) else failed_line (all ! k))
            [i..<length all])
   \<and> requests st' = L @ download_requests all
   \<and> temp_dir st' = temp_dir st"
proof (induction links arbitrary: i pf pl st)
  case Nil
  then have "length all \<le> i" by simp
  with Nil show ?case by simp
next
  case (Cons info rest)
  from Cons.prems(1) have i: "i < length all"
    by (metis drop_all linorder_not_less list.distinct(1))
  from Cons.prems(1) i have info: "info = all ! i" and rest: "rest = drop (Suc i) all"
    by (simp_all add: Cons_nth_drop_Suc[symmetric])
  let ?ok = "\<lambda>k. download_succeeds w (L @ download_requests (take k all)) (all ! k) (pdf_path dir cid k)"
  obtain b st1 where d: "download_pdf w info (pdf_path dir cid i) st = (b, st1)"
    by (cases "download_pdf w info (pdf_path dir cid i) st")
  from download_pdf_fst[of w info "pdf_path dir cid i" st] d Cons.prems(2) info
  have b: "b = ?ok i" by simp
  from download_pdf_snd[of w info "pdf_path dir cid i" st] d Cons.prems(2) info i
  have r1: "requests st1 = L @ download_requests (take (Suc i) all)" and t1: "temp_dir st1 = temp_dir st"
    by (simp_all add: take_Suc_conv_app_nth)
  have upt: "[i..<length all] = i # [Suc i..<length all]"
    using i by (simp add: upt_conv_Cons)
  show ?case
  proof (cases b)
    case True
    with Cons.prems(3) d have
      "download_loop w cid dir (i + 1) rest (pf @ [pdf_path dir cid i])
         (pl @ downloaded_line (pdf_filename cid i) info) st1 = (pf', pl', st')"
      by (simp add: Let_def)
    then have "download_loop w cid dir (Suc i) rest (pf @ [pdf_path dir cid i])
         (pl @ downloaded_line (pdf_filename cid i) info) st1 = (pf', pl', st')" by simp
    from Cons.IH[OF rest r1 this] True b info t1 show ?thesis
      unfolding upt by simp
  next
    case False
    with Cons.prems(3) d have
      "download_loop w cid dir (i + 1) rest pf (pl @ failed_line info) st1 = (pf', pl', st')"
      by (simp add: Let_def)
    then have "download_loop w cid dir (Suc i) rest pf (pl @ failed_line info) st1 = (pf', pl', st')"
      by simp
    from Cons.IH[OF rest r1 this] False b info t1 show ?thesis
      unfolding upt by simp
  qed
qed

lemma download_loop_files:
  "links = drop i all \<Longrightarrow> requests st = L @ download_requests (take i all) \<Longrightarrow>
   download_loop w cid dir i links pf pl st = (pf', pl', st') \<Longrightarrow>
   (\<forall>p. (\<forall>k. i \<le> k \<and> k < length all \<longrightarrow> p \<noteq> pdf_path dir cid k) \<longrightarrow> files st' p = files st p)
   \<and> (\<forall>k. i \<le> k \<and> k < length all
          \<and> download_succeeds w (L @ download_requests (take k all)) (all ! k) (pdf_path dir cid k) \<longrightarrow>
        files st' (pdf_path dir cid k) =
          Some (Bytes (content (the (w_net w (L @ download_requests (take k all)) (Web_get (url (all ! k))))))))"
proof (induction links arbitrary: i pf pl st)
  case Nil
  then have "length all \<le> i" by simp
  with Nil show ?case by auto
next
  case (Cons info rest)
  from Cons.prems(1) have i: "i < length all"
    by (metis drop_all linorder_not_less list.distinct(1))
  from Cons.prems(1) i have info: "info = all ! i" and rest: "rest = drop (Suc i) all"
    by (simp_all add: Cons_nth_drop_Suc[symmetric])
  let ?ok = "\<lambda>k. download_succeeds w (L @ download_requests (take k all)) (all ! k) (pdf_path dir cid k)"
  let ?body = "\<lambda>k. Bytes (content (the (w_net w (L @ download_requests (take k all)) (Web_get (url (all ! k))))))"
  obtain b st1 where d: "download_pdf w info (pdf_path dir cid i) st = (b, st1)"
    by (cases "download_pdf w info (pdf_path dir cid i) st")
  from download_pdf_snd[of w info "pdf_path dir cid i" st] d Cons.prems(2) info i
  have r1: "requests st1 = L @ download_requests (take (Suc i) all)"
    and f1: "files st1 = (if ?ok i then (files st)(pdf_path dir cid i \<mapsto> ?body i) else files st)"
    by (simp_all add: take_Suc_conv_app_nth)
  from Cons.prems(3) d obtain pf1 pl1 where
    loop: "download_loop w cid dir (Suc i) rest pf1 pl1 st1 = (pf', pl', st')"
    by (cases b) (auto simp: Let_def)
  from Cons.IH[OF rest r1 loop] have
    ih1: "\<And>p. (\<forall>k. Suc i \<le> k \<and> k < length all \<longrightarrow> p \<noteq> pdf_path dir cid k) \<Longrightarrow> files st' p = files st1 p"
    and ih2: "\<And>k. Suc i \<le> k \<and> k < length all \<and> ?ok k \<Longrightarrow> files st' (pdf_path dir cid k) = Some (?body k)"
    by blast+
  have a: "files st' p = files st p" if p: "\<forall>k. i \<le> k \<and> k < length all \<longrightarrow> p \<noteq> pdf_path dir cid k" for p
  proof -
    from p have "\<forall>k. Suc i \<le> k \<and> k < length all \<longrightarrow> p \<noteq> pdf_path dir cid k" by simp
    from ih1[OF this] have "files st' p = files st1 p" .
    moreover from p i have "p \<noteq> pdf_path dir cid i" by simp
    ultimately show ?thesis using f1 by simp
  qed
  have c: "files st' (pdf_path dir cid k) = Some (?body k)" if k: "i \<le> k \<and> k < length all \<and> ?ok k" for k
  proof (cases "k = i")
    case True
    have "\<forall>j. Suc i \<le> j \<and> j < length all \<longrightarrow> pdf_path dir cid i \<noteq> pdf_path dir cid j"
      by (auto dest: pdf_path_inj)
    from ih1[OF this] have "files st' (pdf_path dir cid i) = files st1 (pdf_path dir cid i)" .
    with f1 k True show ?thesis by simp
  next
    case False
    with k have "Suc i \<le> k \<and> k < length all \<and> ?ok k" by simp
    from ih2[OF this] show ?thesis .
  qed
  from a c show ?case by blast
qed

lemma os_path_join_suffix: "\<exists>pre. os_path_join a b = pre @ b"
  unfolding os_path_join_def by auto

lemma join_ext4: "take 4 (rev (os_path_join a (x @ [c1, c2, c3, c4]))) = [c4, c3, c2, c1]"
proof -
  obtain pre where "os_path_join a (x @ [c1, c2, c3, c4]) = pre @ x @ [c1, c2, c3, c4]"
    using os_path_join_suffix by blast
  then show ?thesis by simp
qed

lemma join_ext7:
  "take 7 (rev (os_path_join a (x @ [c1, c2, c3, c4, c5, c6, c7]))) = [c7, c6, c5, c4, c3, c2, c1]"
proof -
  obtain pre where "os_path_join a (x @ [c1, c2, c3, c4, c5, c6, c7]) = pre @ x @ [c1, c2, c3, c4, c5, c6, c7]"
    using os_path_join_suffix by blast
  then show ?thesis by simp
qed

lemma path_ext:
  "take 4 (rev (pdf_path dir cid k)) = ''fdp.''"
  "take 4 (rev (os_path_join dir (cid @ ''_overview.txt''))) = ''txt.''"
  "take 4 (rev (os_path_join dir (cid @ ''_officers.txt''))) = ''txt.''"
  "take 4 (rev (os_path_join dir (cid @ ''_psc.txt''))) = ''txt.''"
  "take 4 (rev (os_path_join dir (cid @ ''_filing_history.txt''))) = ''txt.''"
  "take 4 (rev (os_path_join dir (cid @ ''_summary.txt''))) = ''txt.''"
  "take 4 (rev (os_path_join dir (''company_'' @ cid @ ''_data.zip''))) = ''piz.''"
proof -
  show "take 4 (rev (pdf_path dir cid k)) = ''fdp.''"
    using join_ext4[of dir "''filing_document_'' @ str_nat (k + 1) @ ''_'' @ cid" "CHR ''.''" "CHR ''p''" "CHR ''d''" "CHR ''f''"]
    by (simp add: pdf_filename_def)
  show "take 4 (rev (os_path_join dir (cid @ ''_overview.txt''))) = ''txt.''"
    using join_ext4[of dir "cid @ ''_overview''" "CHR ''.''" "CHR ''t''" "CHR ''x''" "CHR ''t''"] by simp
  show "take 4 (rev (os_path_join dir (cid @ ''_officers.txt''))) = ''txt.''"
    using join_ext4[of dir "cid @ ''_officers''" "CHR ''.''" "CHR ''t''" "CHR ''x''" "CHR ''t''"] by simp
  show "take 4 (rev (os_path_join dir (cid @ ''_psc.txt''))) = ''txt.''"
    using join_ext4[of dir "cid @ ''_psc''" "CHR ''.''" "CHR ''t''" "CHR ''x''" "CHR ''t''"] by simp
  show "take 4 (rev (os_path_join dir (cid @ ''_filing_history.txt''))) = ''txt.''"
    using join_ext4[of dir "cid @ ''_filing_history''" "CHR ''.''" "CHR ''t''" "CHR ''x''" "CHR ''t''"] by simp
  show "take 4 (rev (os_path_join dir (cid @ ''_summary.txt''))) = ''txt.''"
    using join_ext4[of dir "cid @ ''_summary''" "CHR ''.''" "CHR ''t''" "CHR ''x''" "CHR ''t''"] by simp
  show "take 4 (rev (os_path_join dir (''company_'' @ cid @ ''_data.zip''))) = ''piz.''"
    using join_ext4[of dir "''company_'' @ cid @ ''_data''" "CHR ''.''" "CHR ''z''" "CHR ''i''" "CHR ''p''"] by simp
qed

lemma ext_differs: "take n (rev p) \<noteq> take n (rev q) \<Longrightarrow> p \<noteq> q"
  by auto

lemma pdf_path_not_text:
  "pdf_path dir cid k \<noteq> os_path_join dir (cid @ ''_overview.txt'')"
  "pdf_path dir cid k \<noteq> os_path_join dir (cid @ ''_officers.txt'')"
  "pdf_path dir cid k \<noteq> os_path_join dir (cid @ ''_psc.txt'')"
  "pdf_path dir cid k \<noteq> os_path_join dir (cid @ ''_filing_history.txt'')"
  "pdf_path dir cid k \<noteq> os_path_join dir (cid @ ''_summary.txt'')"
  "pdf_path dir cid k \<noteq> os_path_join dir (''company_'' @ cid @ ''_data.zip'')"
  by (rule ext_differs[of 4], simp only: path_ext, simp)+

lemma zip_path_not_text:
  "os_path_join dir (cid @ ''_overview.txt'') \<noteq> os_path_join dir (''company_'' @ cid @ ''_data.zip'')"
  "os_path_join dir (cid @ ''_officers.txt'') \<noteq> os_path_join dir (''company_'' @ cid @ ''_data.zip'')"
  "os_path_join dir (cid @ ''_psc.txt'') \<noteq> os_path_join dir (''company_'' @ cid @ ''_data.zip'')"
  "os_path_join dir (cid @ ''_filing_history.txt'') \<noteq> os_path_join dir (''company_'' @ cid @ ''_data.zip'')"
  "os_path_join dir (cid @ ''_summary.txt'') \<noteq> os_path_join dir (''company_'' @ cid @ ''_data.zip'')"
  by (rule ext_differs[of 4], simp only: path_ext, simp)+

lemma summary_path_not_filing:
  "os_path_join dir (cid @ ''_filing_history.txt'') \<noteq> os_path_join dir (cid @ ''_summary.txt'')"
proof (rule ext_differs[of 7])
  have "take 7 (rev (os_path_join dir (cid @ ''_filing_history.txt''))) = ''txt.yro''"
    using join_ext7[of dir "cid @ ''_filing_hist''" "CHR ''o''" "CHR ''r''" "CHR ''y''" "CHR ''.''" "CHR ''t''" "CHR ''x''" "CHR ''t''"]
    by simp
  moreover have "take 7 (rev (os_path_join dir (cid @ ''_summary.txt''))) = ''txt.yra''"
    using join_ext7[of dir "cid @ ''_summ''" "CHR ''a''" "CHR ''r''" "CHR ''y''" "CHR ''.''" "CHR ''t''" "CHR ''x''" "CHR ''t''"]
    by simp
  ultimately show "take 7 (rev (os_path_join dir (cid @ ''_filing_history.txt'')))
      \<noteq> take 7 (rev (os_path_join dir (cid @ ''_summary.txt'')))"
    by simp
qed

lemma write_sections_files:
  "write_sections w secs created st = (r, st') \<Longrightarrow> p \<notin> fst ` set secs \<Longrightarrow> files st' p = files st p"
proof (induction secs arbitrary: created st)
  case Nil
  then show ?case by simp
next
  case (Cons sec secs)
  obtain path body where sec: "sec = (path, body)" by (cases sec)
  show ?case
  proof (cases "body \<noteq> None \<and> w_writable w path")
    case True
    then obtain t where t: "body = Some t" by auto
    with True Cons.prems sec have
      "write_sections w secs (created @ [path]) (st\<lparr>files := (files st)(path \<mapsto> Bytes t)\<rparr>) = (r, st')"
      by simp
    from Cons.IH[OF this] Cons.prems(2) sec show ?thesis by simp
  next
    case False
    with Cons.prems sec show ?thesis by (auto split: option.splits)
  qed
qed

lemma write_sections_all:
  "write_sections w secs created st = (Some fc, st') \<Longrightarrow>
     \<forall>p \<in> fst ` set secs. files st' p \<noteq> None"
proof (induction secs arbitrary: created st)
  case Nil
  then show ?case by simp
next
  case (Cons sec secs)
  obtain path body where sec: "sec = (path, body)" by (cases sec)
  from Cons.prems sec obtain t where t: "body = Some t" "w_writable w path"
    "write_sections w secs (created @ [path]) (st\<lparr>files := (files st)(path \<mapsto> Bytes t)\<rparr>) = (Some fc, st')"
    by (auto split: option.splits if_splits)
  have "files st' path \<noteq> None"
  proof (cases "path \<in> fst ` set secs")
    case True
    with Cons.IH[OF t(3)] show ?thesis by blast
  next
    case False
    from write_sections_files[OF t(3) False] show ?thesis by simp
  qed
  with Cons.IH[OF t(3)] sec show ?case by simp
qed

lemma write_sections_last:
  "write_sections w (secs @ [(p, body)]) created st = (Some fc, st') \<Longrightarrow>
     \<exists>t. body = Some t \<and> files st' p = Some (Bytes t)"
proof (induction secs arbitrary: created st)
  case Nil
  then show ?case by (auto split: option.splits if_splits)
next
  case (Cons sec secs)
  obtain path b where sec: "sec = (path, b)" by (cases sec)
  from Cons.prems sec obtain t where t: "b = Some t" "w_writable w path"
    "write_sections w (secs @ [(p, body)]) (created @ [path]) (st\<lparr>files := (files st)(path \<mapsto> Bytes t)\<rparr>) = (Some fc, st')"
    by (auto split: option.splits if_splits)
  from Cons.IH[OF t(3)] show ?case .
qed

lemma api_fetch_state:
  "api_fetch w e st = (j, st') \<Longrightarrow>
     temp_dir st' = temp_dir st \<and> files st' = files st \<and> requests st' = requests st @ [Api_get e]"
  by (auto simp: api_fetch_def send_def split: option.splits)

lemma fetchers_state:
  assumes "get_company_profile_api w cid st1 = (cp, st2)" "get_officers_api w cid st2 = (od, st3)"
    "get_psc_api w cid st3 = (pd, st4)" "get_filing_history_api w cid st4 = (fh, st5)"
  shows "temp_dir st5 = temp_dir st1 \<and> files st5 = files st1"
  using assms
  unfolding get_company_profile_api_def get_officers_api_def get_psc_api_def get_filing_history_api_def
  by (auto dest!: api_fetch_state)

text \<open>What a run that returns an archive has done.\<close>

lemma done_run:
  assumes run: "create_zip_file_body w cid st0 = (Done l, st')"
  shows "\<exists>L log5 fh ft.
      get_pdf_links_scraping (w_net w) cid log5 = (l_pdf_links l, L)
    \<and> requests st' = L @ download_requests (l_pdf_links l)
    \<and> l_pdf_files l = map (pdf_path (run_dir st') cid)
        (filter (\<lambda>k. download_succeeds w (L @ download_requests (take k (l_pdf_links l)))
                       (l_pdf_links l ! k) (pdf_path (run_dir st') cid k))
           [0..<length (l_pdf_links l)])
    \<and> l_pdf_log l = ''\<newline>=== PDF DOCUMENTS ===\<newline>\<newline>''
        @ concat (map (\<lambda>k.
            if download_succeeds w (L @ download_requests (take k (l_pdf_links l)))
                 (l_pdf_links l ! k) (pdf_path (run_dir st') cid k)
            then downloaded_line (pdf_filename cid k) (l_pdf_links l ! k)
            else failed_line (l_pdf_links l ! k)) [0..<length (l_pdf_links l)])
    \<and> l_files_created l =
        [os_path_join (run_dir st') (cid @ ''_overview.txt''),
         os_path_join (run_dir st') (cid @ ''_officers.txt''),
         os_path_join (run_dir st') (cid @ ''_psc.txt''),
         os_path_join (run_dir st') (cid @ ''_filing_history.txt''),
         os_path_join (run_dir st') (cid @ ''_summary.txt'')]
    \<and> l_zip_path l = os_path_join (run_dir st') (''company_'' @ cid @ ''_data.zip'')
    \<and> files st' (l_zip_path l) =
        Some (Zip (map (\<lambda>p. (os_path_basename p, the (files st' p))) (l_files_created l @ l_pdf_files l)))
    \<and> (\<forall>p \<in> set (l_files_created l @ l_pdf_files l). files st' p \<noteq> None)
    \<and> (\<forall>k<length (l_pdf_links l).
          download_succeeds w (L @ download_requests (take k (l_pdf_links l)))
            (l_pdf_links l ! k) (pdf_path (run_dir st') cid k) \<longrightarrow>
          files st' (pdf_path (run_dir st') cid k) =
            Some (Bytes (content (the (w_net w (L @ download_requests (take k (l_pdf_links l)))
                                        (Web_get (url (l_pdf_links l ! k))))))))
    \<and> format_filing_history fh = Some ft
    \<and> files st' (os_path_join (run_dir st') (cid @ ''_filing_history.txt'')) = Some (Bytes (ft @ l_pdf_log l))
    \<and> files st' (os_path_join (run_dir st') (cid @ ''_summary.txt'')) = Some (Bytes (l_summary_text l))"
proof -
  from run obtain st1 log1 cp st2 od st3 pd st4 fh st5 links log6 pf pl st7 fc st8 dir where
    d: "dir = (case temp_dir st1 of None \<Rightarrow> [] | Some d \<Rightarrow> d)"
    and api: "get_company_profile_api w cid (st1\<lparr>requests := log1\<rparr>) = (cp, st2)"
      "get_officers_api w cid st2 = (od, st3)"
      "get_psc_api w cid st3 = (pd, st4)"
      "get_filing_history_api w cid st4 = (fh, st5)"
    and scan: "get_pdf_links_scraping (w_net w) cid (requests st5) = (links, log6)"
    and dl: "download_loop w cid dir 0 links [] ''\<newline>=== PDF DOCUMENTS ===\<newline>\<newline>'' (st5\<lparr>requests := log6\<rparr>) = (pf, pl, st7)"
    and ws: "write_sections w
       [(os_path_join dir (cid @ ''_overview.txt''), format_company_profile cp),
        (os_path_join dir (cid @ ''_officers.txt''), format_officers od),
        (os_path_join dir (cid @ ''_psc.txt''), format_psc pd),
        (os_path_join dir (cid @ ''_filing_history.txt''),
           map_option (\<lambda>t. t @ pl) (format_filing_history fh))] [] st7 = (Some fc, st8)"
    and wz: "write_zip w (os_path_join dir (''company_'' @ cid @ ''_data.zip''))
        ((fc @ [os_path_join dir (cid @ ''_summary.txt'')]) @ pf)
        (st8\<lparr>files := (files st8)(os_path_join dir (cid @ ''_summary.txt'')
                 \<mapsto> Bytes (summary_text_of w cid fc pf links))\<rparr>) = (True, st')"
    and l: "l = \<lparr>l_pdf_links = links, l_pdf_files = pf, l_pdf_log = pl,
          l_files_created = fc @ [os_path_join dir (cid @ ''_summary.txt'')],
          l_summary_text = summary_text_of w cid fc pf links,
          l_zip_path = os_path_join dir (''company_'' @ cid @ ''_data.zip'')\<rparr>"
    by (rule body_Done)
  let ?sp = "os_path_join dir (cid @ ''_summary.txt'')"
  let ?fp = "os_path_join dir (cid @ ''_filing_history.txt'')"
  let ?zp = "os_path_join dir (''company_'' @ cid @ ''_data.zip'')"
  let ?ok = "\<lambda>k. download_succeeds w (log6 @ download_requests (take k links)) (links ! k) (pdf_path dir cid k)"
  let ?st9 = "st8\<lparr>files := (files st8)(?sp \<mapsto> Bytes (summary_text_of w cid fc pf links))\<rparr>"
  have t5: "temp_dir st5 = temp_dir st1"
    using fetchers_state[OF api] by simp
  have pre: "links = drop 0 links" "requests (st5\<lparr>requests := log6\<rparr>) = log6 @ download_requests (take 0 links)"
    by simp_all
  from download_loop_char[OF pre dl]
  have pf: "pf = map (pdf_path dir cid) (filter ?ok [0..<length links])"
    and pl: "pl = ''\<newline>=== PDF DOCUMENTS ===\<newline>\<newline>''
        @ concat (map (\<lambda>k. if ?ok k then downloaded_line (pdf_filename cid k) (links ! k)
                              else failed_line (links ! k)) [0..<length links])"
    and r7: "requests st7 = log6 @ download_requests links"
    and t7: "temp_dir st7 = temp_dir st5"
    by simp_all
  from download_loop_files[OF pre dl]
  have f7: "\<And>k. k < length links \<Longrightarrow> ?ok k \<Longrightarrow> files st7 (pdf_path dir cid k) =
          Some (Bytes (content (the (w_net w (log6 @ download_requests (take k links)) (Web_get (url (links ! k)))))))"
    by simp
  from write_sections_created[OF ws] have fc: "fc =
      [os_path_join dir (cid @ ''_overview.txt''), os_path_join dir (cid @ ''_officers.txt''),
       os_path_join dir (cid @ ''_psc.txt''), ?fp]"
    by simp
  from write_sections_state[OF ws] have r8: "requests st8 = requests st7" and t8: "temp_dir st8 = temp_dir st7"
    by simp_all
  from write_zip_True[OF wz] have
    rz: "requests st' = requests st8" and tz: "temp_dir st' = temp_dir st8"
    and fz: "files st' = (files ?st9)(?zp \<mapsto> Zip (map (\<lambda>p. (os_path_basename p,
               the (((files ?st9)(?zp \<mapsto> Zip [])) p))) ((fc @ [?sp]) @ pf)))"
    by simp_all
  from tz t8 t7 t5 d have dir: "dir = run_dir st'" by simp
  have other: "files st' p = files ?st9 p" if "p \<noteq> ?zp" for p
    using fz that by simp
  have f8_pdf: "files st8 (pdf_path dir cid k) = files st7 (pdf_path dir cid k)" for k
    by (rule write_sections_files[OF ws]) (simp add: pdf_path_not_text)
  have pdf_final: "files st' (pdf_path dir cid k) = files st7 (pdf_path dir cid k)" for k
    using other[of "pdf_path dir cid k"] f8_pdf[of k] pdf_path_not_text[of dir cid k] by simp
  have pdf_ok: "files st' (pdf_path dir cid k) =
          Some (Bytes (content (the (w_net w (log6 @ download_requests (take k links)) (Web_get (url (links ! k)))))))"
    if "k < length links" "?ok k" for k
    using pdf_final[of k] f7[OF that] by simp
  from write_sections_all[OF ws] have t8all: "\<forall>p \<in> set fc. files st8 p \<noteq> None"
    unfolding fc by simp
  have text_final: "files st' p \<noteq> None" if "p \<in> set fc" for p
  proof -
    from that fc zip_path_not_text[of dir cid] have "p \<noteq> ?zp" by auto
    from other[OF this] t8all that show ?thesis by simp
  qed
  have sum_final: "files st' ?sp = Some (Bytes (summary_text_of w cid fc pf links))"
    using other[of ?sp] zip_path_not_text(5)[of dir cid] by simp
  have pdfs_final: "files st' p \<noteq> None" if "p \<in> set pf" for p
  proof -
    from that pf obtain k where "k < length links" "?ok k" "p = pdf_path dir cid k" by auto
    with pdf_ok show ?thesis by simp
  qed
  have all_final: "\<forall>p \<in> set ((fc @ [?sp]) @ pf). files st' p \<noteq> None"
    using text_final sum_final pdfs_final by auto
  have not_zip: "p \<noteq> ?zp" if "p \<in> set ((fc @ [?sp]) @ pf)" for p
  proof -
    from that consider "p \<in> set fc" | "p = ?sp" | "p \<in> set pf" by auto
    then show ?thesis
    proof cases
      case 1
      with fc zip_path_not_text[of dir cid] show ?thesis by auto
    next
      case 2
      with zip_path_not_text(5)[of dir cid] show ?thesis by simp
    next
      case 3
      with pf pdf_path_not_text(6)[of dir cid] show ?thesis by auto
    qed
  qed
  have entries: "map (\<lambda>p. (os_path_basename p, the (((files ?st9)(?zp \<mapsto> Zip [])) p))) ((fc @ [?sp]) @ pf)
      = map (\<lambda>p. (os_path_basename p, the (files st' p))) ((fc @ [?sp]) @ pf)"
  proof (rule map_cong)
    fix p assume "p \<in> set ((fc @ [?sp]) @ pf)"
    from not_zip[OF this] other[of p]
    show "(os_path_basename p, the (((files ?st9)(?zp \<mapsto> Zip [])) p)) = (os_path_basename p, the (files st' p))"
      by simp
  qed simp
  have zip_final: "files st' ?zp = Some (Zip (map (\<lambda>p. (os_path_basename p, the (files st' p))) ((fc @ [?sp]) @ pf)))"
    using fz entries by simp
  have ws': "write_sections w
       ([(os_path_join dir (cid @ ''_overview.txt''), format_company_profile cp),
        (os_path_join dir (cid @ ''_officers.txt''), format_officers od),
        (os_path_join dir (cid @ ''_psc.txt''), format_psc pd)]
        @ [(?fp, map_option (\<lambda>t. t @ pl) (format_filing_history fh))]) [] st7 = (Some fc, st8)"
    using ws by simp
  from write_sections_last[OF ws'] obtain t where
    t: "map_option (\<lambda>t. t @ pl) (format_filing_history fh) = Some t" "files st8 ?fp = Some (Bytes t)"
    by blast
  from t(1) obtain ft where ft: "format_filing_history fh = Some ft" "t = ft @ pl" by auto
  have fil_final: "files st' ?fp = Some (Bytes (ft @ pl))"
    using other[of ?fp] zip_path_not_text(4)[of dir cid] summary_path_not_filing[of dir cid] t(2) ft(2)
    by simp
  have L1: "l_pdf_links l = links" "l_pdf_files l = pf" "l_pdf_log l = pl"
    "l_files_created l = fc @ [?sp]" "l_summary_text l = summary_text_of w cid fc pf links"
    "l_zip_path l = ?zp"
    using l by simp_all
  have rq: "requests st' = log6 @ download_requests links"
    using rz r8 r7 by simp
  have fc5: "fc @ [?sp] =
      [os_path_join dir (cid @ ''_overview.txt''), os_path_join dir (cid @ ''_officers.txt''),
       os_path_join dir (cid @ ''_psc.txt''), ?fp, ?sp]"
    using fc by simp
  have pdf_ok': "\<forall>k<length links. ?ok k \<longrightarrow> files st' (pdf_path dir cid k) =
          Some (Bytes (content (the (w_net w (log6 @ download_requests (take k links)) (Web_get (url (links ! k)))))))"
    using pdf_ok by blast
  show ?thesis
    unfolding L1 dir[symmetric]
    by (intro exI[of _ log6] exI[of _ "requests st5"] exI[of _ fh] exI[of _ ft] conjI;
        (rule scan rq pf pl fc5 refl zip_final all_final pdf_ok' ft(1) fil_final sum_final))
qed

lemma basename_join:
  assumes "CHR ''/'' \<notin> set f"
  shows "os_path_basename (os_path_join a f) = f"
proof -
  from assms have ns: "\<not> py_startswith f ''/''"
    by (cases f) auto
  from assms have all: "\<forall>c \<in> set (rev f). c \<noteq> CHR ''/''" by auto
  show ?thesis
  proof (cases "a = [] \<or> last a = CHR ''/''")
    case True
    then have e: "takeWhile (\<lambda>c. c \<noteq> CHR ''/'') (rev a) = []"
      by (cases a rule: rev_cases) auto
    have "takeWhile (\<lambda>c. c \<noteq> CHR ''/'') (rev f @ rev a)
        = rev f @ takeWhile (\<lambda>c. c \<noteq> CHR ''/'') (rev a)"
      by (rule takeWhile_append2) (use all in blast)
    with True ns e show ?thesis
      by (simp add: os_path_join_def os_path_basename_def)
  next
    case False
    have "takeWhile (\<lambda>c. c \<noteq> CHR ''/'') (rev f @ CHR ''/'' # rev a) = rev f @ []"
      by (subst takeWhile_append2) (use all in auto)
    with False ns show ?thesis
      by (simp add: os_path_join_def os_path_basename_def)
  qed
qed

lemma pdf_filename_no_slash: "CHR ''/'' \<notin> set cid \<Longrightarrow> CHR ''/'' \<notin> set (pdf_filename cid k)"
proof -
  assume c: "CHR ''/'' \<notin> set cid"
  have "CHR ''/'' \<notin> set (str_nat n)" for n
  proof (induction n rule: str_nat.induct)
    case (1 n)
    have d: "digit_char m \<noteq> CHR ''/''" if "m < 10" for m
    proof -
      from that have "(of_char (digit_char m) :: nat) = 48 + m"
        by (simp add: digit_char_def)
      then show ?thesis by auto
    qed
    show ?case
    proof (cases "n < 10")
      case True
      with d[of n] show ?thesis by (subst str_nat.simps) auto
    next
      case False
      with 1 d[of "n mod 10"] show ?thesis by (subst str_nat.simps) auto
    qed
  qed
  with c show ?thesis by (simp add: pdf_filename_def)
qed

lemma max_list_Max: "xs \<noteq> [] \<Longrightarrow> max_list xs = Max (set xs)"
proof (induction xs)
  case Nil
  then show ?case by simp
next
  case (Cons x xs)
  then show ?case by (cases "xs = []") simp_all
qed




section \<open>Isolation of download failures\<close>









section \<open>Names of the downloaded documents\<close>

text \<open>
  Claim C7, as the specification states it, numbers a document by its position among the
  successfully downloaded ones. In the sample run the first link fails and the second
  succeeds: the only downloaded document is stored as \<open>filing_document_2_00006245.pdf\<close>, and
  no file \<open>filing_document_1_00006245.pdf\<close> exists.
\<close>

theorem document_naming_counterexample:
  "fst (create_zip_file_body sample_world sample_id sample_state) =
     Done \<lparr>l_pdf_links =
             [\<lparr>url = web_base @ ''/a.pdf'', description = ''View PDF'', page = 1\<rparr>,
              \<lparr>url = web_base @ ''/b.pdf'', description = ''View PDF'', page = 1\<rparr>],
           l_pdf_files = [sample_dir @ ''/filing_document_2_00006245.pdf''],
           l_pdf_log = ''\<newline>=== PDF DOCUMENTS ===\<newline>\<newline>''
             @ fail_mark @ '' Failed: View PDF (Page 1)\<newline>''
             @ ok_mark @ '' Downloaded: filing_document_2_00006245.pdf (Page 1)\<newline>'',
           l_files_created =
             [sample_dir @ ''/00006245_overview.txt'', sample_dir @ ''/00006245_officers.txt'',
              sample_dir @ ''/00006245_psc.txt'', sample_dir @ ''/00006245_filing_history.txt'',
              sample_dir @ ''/00006245_summary.txt''],
           l_summary_text =
             ''=== COMPANY DATA EXTRACTION SUMMARY ===\<newline>\<newline>''
             @ ''Company ID: 00006245\<newline>''
             @ ''Extraction Date: 2024-01-01 12:00:00\<newline>''
             @ ''Method: Hybrid (Companies House API + Multi-Page Web Scraping)\<newline>\<newline>''
             @ ''Files Created: 4 text files\<newline>''
             @ ''PDFs Downloaded: 1\<newline>''
             @ ''Pages Scraped: 1\<newline>'',
           l_zip_path = sample_dir @ ''/company_00006245_data.zip''\<rparr>
   \<and> files (snd (create_zip_file_body sample_world sample_id sample_state))
         (sample_dir @ ''/filing_document_1_00006245.pdf'') = None
   \<and> files (snd (create_zip_file_body sample_world sample_id sample_state))
         (sample_dir @ ''/filing_document_2_00006245.pdf'') = Some (Bytes ''%PDF'')"
proof -
  have "files (snd (create_zip_file_body sample_world sample_id sample_state))
         (sample_dir @ ''/filing_document_1_00006245.pdf'') = None"
    by code_simp
  moreover have "files (snd (create_zip_file_body sample_world sample_id sample_state))
         (sample_dir @ ''/filing_document_2_00006245.pdf'') = Some (Bytes ''%PDF'')"
    by code_simp
  ultimately show ?thesis using sample_run_locals by simp
qed

text \<open>
  Claim C7, amended. Each successfully downloaded document is stored, and archived, under the
  name \<open>filing_document_{n}_{id}.pdf\<close> where \<open>n\<close> is the 1-based position of its link among
  all located links, the order in which the downloads are attempted; the numbers of failed
  downloads are left out. (The archived name is the base name of the path, which is this
  file name when the identifier has no slash.)
\<close>

theorem document_naming:
  assumes run: "create_zip_file_body w cid st = (Done l, st')"
  shows "\<exists>L entries.
      requests st' = L @ download_requests (l_pdf_links l)
    \<and> l_pdf_files l = map (pdf_path (run_dir st') cid)
        (filter (\<lambda>k. download_succeeds w (L @ download_requests (take k (l_pdf_links l)))
                       (l_pdf_links l ! k) (pdf_path (run_dir st') cid k))
           [0..<length (l_pdf_links l)])
    \<and> files st' (l_zip_path l) = Some (Zip entries)
    \<and> (\<forall>k<length (l_pdf_links l).
          download_succeeds w (L @ download_requests (take k (l_pdf_links l)))
            (l_pdf_links l ! k) (pdf_path (run_dir st') cid k) \<longrightarrow>
          files st' (pdf_path (run_dir st') cid k) =
            Some (Bytes (content (the (w_net w (L @ download_requests (take k (l_pdf_links l)))
                                        (Web_get (url (l_pdf_links l ! k)))))))
          \<and> (os_path_basename (pdf_path (run_dir st') cid k),
               Bytes (content (the (w_net w (L @ download_requests (take k (l_pdf_links l)))
                                      (Web_get (url (l_pdf_links l ! k)))))))
              \<in> set entries)
    \<and> (CHR ''/'' \<notin> set cid \<longrightarrow>
         (\<forall>k. os_path_basename (pdf_path (run_dir st') cid k) =
                ''filing_document_'' @ str_nat (k + 1) @ ''_'' @ cid @ ''.pdf''))"
proof -
  let ?links = "l_pdf_links l"
  let ?dir = "run_dir st'"
  let ?ok = "\<lambda>k. download_succeeds w (L @ download_requests (take k ?links))
                       (?links ! k) (pdf_path ?dir cid k)"
  from done_run[OF run] obtain L where
    rq: "requests st' = L @ download_requests ?links"
    and pf: "l_pdf_files l = map (pdf_path ?dir cid)
        (filter (\<lambda>k. download_succeeds w (L @ download_requests (take k ?links))
                       (?links ! k) (pdf_path ?dir cid k))
           [0..<length ?links])"
    and zf: "files st' (l_zip_path l) =
        Some (Zip (map (\<lambda>p. (os_path_basename p, the (files st' p))) (l_files_created l @ l_pdf_files l)))"
    and ok: "\<forall>k<length ?links.
          download_succeeds w (L @ download_requests (take k ?links))
            (?links ! k) (pdf_path ?dir cid k) \<longrightarrow>
          files st' (pdf_path ?dir cid k) =
            Some (Bytes (content (the (w_net w (L @ download_requests (take k ?links))
                                        (Web_get (url (?links ! k)))))))"
    by blast
  let ?entries = "map (\<lambda>p. (os_path_basename p, the (files st' p))) (l_files_created l @ l_pdf_files l)"
  have docs: "\<forall>k<length ?links.
          download_succeeds w (L @ download_requests (take k ?links))
            (?links ! k) (pdf_path ?dir cid k) \<longrightarrow>
          files st' (pdf_path ?dir cid k) =
            Some (Bytes (content (the (w_net w (L @ download_requests (take k ?links))
                                        (Web_get (url (?links ! k)))))))
          \<and> (os_path_basename (pdf_path ?dir cid k),
               Bytes (content (the (w_net w (L @ download_requests (take k ?links))
                                      (Web_get (url (?links ! k)))))))
              \<in> set ?entries"
  proof (intro allI impI)
    fix k assume k: "k < length ?links"
      "download_succeeds w (L @ download_requests (take k ?links)) (?links ! k) (pdf_path ?dir cid k)"
    then have "pdf_path ?dir cid k \<in> set (l_pdf_files l)"
      unfolding pf by simp
    then have "(os_path_basename (pdf_path ?dir cid k), the (files st' (pdf_path ?dir cid k))) \<in> set ?entries"
      by (simp add: image_iff) blast
    with ok k show "files st' (pdf_path ?dir cid k) =
            Some (Bytes (content (the (w_net w (L @ download_requests (take k ?links))
                                        (Web_get (url (?links ! k)))))))
          \<and> (os_path_basename (pdf_path ?dir cid k),
               Bytes (content (the (w_net w (L @ download_requests (take k ?links))
                                      (Web_get (url (?links ! k)))))))
              \<in> set ?entries"
      by simp
  qed
  have names: "CHR ''/'' \<notin> set cid \<longrightarrow>
         (\<forall>k. os_path_basename (pdf_path ?dir cid k) =
                ''filing_document_'' @ str_nat (k + 1) @ ''_'' @ cid @ ''.pdf'')"
  proof (intro impI allI)
    fix k assume c: "CHR ''/'' \<notin> set cid"
    have "os_path_basename (pdf_path ?dir cid k) = pdf_filename cid k"
      by (intro basename_join pdf_filename_no_slash c)
    then show "os_path_basename (pdf_path ?dir cid k) =
                ''filing_document_'' @ str_nat (k + 1) @ ''_'' @ cid @ ''.pdf''"
      by (simp add: pdf_filename_def)
  qed
  show ?thesis
    by (intro exI[of _ L] exI[of _ ?entries] conjI; (rule rq pf zf docs names))
qed

theorem document_naming_witness:
  "\<exists>l st' L.
      create_zip_file_body sample_world sample_id sample_state = (Done l, st')
    \<and> requests st' = L @ download_requests (l_pdf_links l)
    \<and> l_pdf_files l = map (pdf_path (run_dir st') sample_id)
        (filter (\<lambda>k. download_succeeds sample_world (L @ download_requests (take k (l_pdf_links l)))
                       (l_pdf_links l ! k) (pdf_path (run_dir st') sample_id k))
           [0..<length (l_pdf_links l)])
    \<and> os_path_basename (pdf_path (run_dir st') sample_id 1) =
        ''filing_document_'' @ str_nat (1 + 1) @ ''_'' @ sample_id @ ''.pdf''"
proof -
  let ?st' = "snd (create_zip_file_body sample_world sample_id sample_state)"
  obtain l where "fst (create_zip_file_body sample_world sample_id sample_state) = Done l"
    using sample_run_locals by blast
  then have h: "create_zip_file_body sample_world sample_id sample_state = (Done l, ?st')"
    by (simp add: prod_eq_iff)
  have c: "CHR ''/'' \<notin> set sample_id" by (simp add: sample_id_def)
  from document_naming[OF h] obtain L where
    "requests ?st' = L @ download_requests (l_pdf_links l)"
    "l_pdf_files l = map (pdf_path (run_dir ?st') sample_id)
        (filter (\<lambda>k. download_succeeds sample_world (L @ download_requests (take k (l_pdf_links l)))
                       (l_pdf_links l ! k) (pdf_path (run_dir ?st') sample_id k))
           [0..<length (l_pdf_links l)])"
    "CHR ''/'' \<notin> set sample_id \<longrightarrow>
         (\<forall>k. os_path_basename (pdf_path (run_dir ?st') sample_id k) =
                ''filing_document_'' @ str_nat (k + 1) @ ''_'' @ sample_id @ ''.pdf'')"
    by blast
  with c h show ?thesis by blast
qed

section \<open>The pages reported by the summary\<close>

text \<open>
  Claim C8, as the specification states it, has the summary report the last page scanned,
  a final page without candidate links included. In the sample run the scan fetches page 2,
  which answers with status 200 and no candidate link, and the summary says
  \<open>Pages Scraped: 1\<close>.
\<close>

theorem pages_scraped_counterexample:
  "requests (snd (create_zip_file_body sample_world sample_id sample_state)) ! 6 =
     Web_get (listing_url sample_id 2)
   \<and> sample_net (take 6 (requests (snd (create_zip_file_body sample_world sample_id sample_state))))
        (Web_get (listing_url sample_id 2)) =
       Some \<lparr>status_code = 200, json_body = None, anchors = [(''?page=3'', ''Next'')], content = []\<rparr>
   \<and> fst (create_zip_file_body sample_world sample_id sample_state) =
     Done \<lparr>l_pdf_links =
             [\<lparr>url = web_base @ ''/a.pdf'', description = ''View PDF'', page = 1\<rparr>,
              \<lparr>url = web_base @ ''/b.pdf'', description = ''View PDF'', page = 1\<rparr>],
           l_pdf_files = [sample_dir @ ''/filing_document_2_00006245.pdf''],
           l_pdf_log = ''\<newline>=== PDF DOCUMENTS ===\<newline>\<newline>''
             @ fail_mark @ '' Failed: View PDF (Page 1)\<newline>''
             @ ok_mark @ '' Downloaded: filing_document_2_00006245.pdf (Page 1)\<newline>'',
           l_files_created =
             [sample_dir @ ''/00006245_overview.txt'', sample_dir @ ''/00006245_officers.txt'',
              sample_dir @ ''/00006245_psc.txt'', sample_dir @ ''/00006245_filing_history.txt'',
              sample_dir @ ''/00006245_summary.txt''],
           l_summary_text =
             ''=== COMPANY DATA EXTRACTION SUMMARY ===\<newline>\<newline>''
             @ ''Company ID: 00006245\<newline>''
             @ ''Extraction Date: 2024-01-01 12:00:00\<newline>''
             @ ''Method: Hybrid (Companies House API + Multi-Page Web Scraping)\<newline>\<newline>''
             @ ''Files Created: 4 text files\<newline>''
             @ ''PDFs Downloaded: 1\<newline>''
             @ ''Pages Scraped: 1\<newline>'',
           l_zip_path = sample_dir @ ''/company_00006245_data.zip''\<rparr>"
proof -
  have "requests (snd (create_zip_file_body sample_world sample_id sample_state)) ! 6 =
     Web_get (listing_url sample_id 2)"
    unfolding sample_run_requests by code_simp
  moreover have "sample_net (take 6 (requests (snd (create_zip_file_body sample_world sample_id sample_state))))
        (Web_get (listing_url sample_id 2)) =
       Some \<lparr>status_code = 200, json_body = None, anchors = [(''?page=3'', ''Next'')], content = []\<rparr>"
    unfolding sample_run_requests by code_simp
  ultimately show ?thesis using sample_run_locals by simp
qed

text \<open>
  Claim C8, amended. Whenever an archive is produced, the line \<open>Pages Scraped\<close> of the
  summary reports the greatest page number carried by a link that the Document Locator
  returned, and 1 when it returned none; a page that was fetched without yielding a
  candidate link is not counted.
\<close>

theorem pages_scraped_line:
  assumes run: "create_zip_file_body w cid st = (Done l, st')"
  shows "(\<exists>log5 L. get_pdf_links_scraping (w_net w) cid log5 = (l_pdf_links l, L))
    \<and> l_summary_text l =
           ''=== COMPANY DATA EXTRACTION SUMMARY ===\<newline>\<newline>''
           @ ''Company ID: '' @ cid @ ''\<newline>''
           @ ''Extraction Date: '' @ w_clock w @ ''\<newline>''
           @ ''Method: Hybrid (Companies House API + Multi-Page Web Scraping)\<newline>\<newline>''
           @ ''Files Created: 4 text files\<newline>''
           @ ''PDFs Downloaded: '' @ str_nat (length (l_pdf_files l)) @ ''\<newline>''
           @ ''Pages Scraped: ''
           @ str_nat (if l_pdf_links l = [] then 1 else Max (page ` set (l_pdf_links l)))
           @ ''\<newline>''
    \<and> files st' (os_path_join (run_dir st') (cid @ ''_summary.txt'')) = Some (Bytes (l_summary_text l))"
proof -
  from done_run[OF run] obtain L log5 where
    scan: "get_pdf_links_scraping (w_net w) cid log5 = (l_pdf_links l, L)"
    and sm: "files st' (os_path_join (run_dir st') (cid @ ''_summary.txt'')) = Some (Bytes (l_summary_text l))"
    by blast
  from run obtain fc dir pf pl st7 st8 cp od pd fh links where
    ws: "write_sections w
       [(os_path_join dir (cid @ ''_overview.txt''), format_company_profile cp),
        (os_path_join dir (cid @ ''_officers.txt''), format_officers od),
        (os_path_join dir (cid @ ''_psc.txt''), format_psc pd),
        (os_path_join dir (cid @ ''_filing_history.txt''),
           map_option (\<lambda>t. t @ pl) (format_filing_history fh))] [] st7 = (Some fc, st8)"
    and l: "l = \<lparr>l_pdf_links = links, l_pdf_files = pf, l_pdf_log = pl,
          l_files_created = fc @ [os_path_join dir (cid @ ''_summary.txt'')],
          l_summary_text = summary_text_of w cid fc pf links,
          l_zip_path = os_path_join dir (''company_'' @ cid @ ''_data.zip'')\<rparr>"
    by (rule body_Done)
  from write_sections_created[OF ws] have len: "length fc = 4" by simp
  have four: "str_nat 4 = ''4''" by code_simp
  have mx: "(if links \<noteq> [] then max_list (map page links) else 1)
      = (if links = [] then 1 else Max (page ` set links))"
    using max_list_Max[of "map page links"] by simp
  from len l four mx have t: "l_summary_text l =
           ''=== COMPANY DATA EXTRACTION SUMMARY ===\<newline>\<newline>''
           @ ''Company ID: '' @ cid @ ''\<newline>''
           @ ''Extraction Date: '' @ w_clock w @ ''\<newline>''
           @ ''Method: Hybrid (Companies House API + Multi-Page Web Scraping)\<newline>\<newline>''
           @ ''Files Created: 4 text files\<newline>''
           @ ''PDFs Downloaded: '' @ str_nat (length (l_pdf_files l)) @ ''\<newline>''
           @ ''Pages Scraped: ''
           @ str_nat (if l_pdf_links l = [] then 1 else Max (page ` set (l_pdf_links l)))
           @ ''\<newline>''"
    by (simp add: summary_text_of_def)
  from scan t sm show ?thesis by blast
qed

theorem pages_scraped_line_witness:
  "\<exists>l st'. create_zip_file_body sample_world sample_id sample_state = (Done l, st')
    \<and> l_summary_text l =
           ''=== COMPANY DATA EXTRACTION SUMMARY ===\<newline>\<newline>''
           @ ''Company ID: '' @ sample_id @ ''\<newline>''
           @ ''Extraction Date: '' @ w_clock sample_world @ ''\<newline>''
           @ ''Method: Hybrid (Companies House API + Multi-Page Web Scraping)\<newline>\<newline>''
           @ ''Files Created: 4 text files\<newline>''
           @ ''PDFs Downloaded: '' @ str_nat (length (l_pdf_files l)) @ ''\<newline>''
           @ ''Pages Scraped: ''
           @ str_nat (if l_pdf_links l = [] then 1 else Max (page ` set (l_pdf_links l)))
           @ ''\<newline>''
    \<and> files st' (os_path_join (run_dir st') (sample_id @ ''_summary.txt'')) = Some (Bytes (l_summary_text l))"
proof -
  let ?st' = "snd (create_zip_file_body sample_world sample_id sample_state)"
  obtain l where "fst (create_zip_file_body sample_world sample_id sample_state) = Done l"
    using sample_run_locals by blast
  then have h: "create_zip_file_body sample_world sample_id sample_state = (Done l, ?st')"
    by (simp add: prod_eq_iff)
  from pages_scraped_line[OF h] h show ?thesis by blast
qed

end
